theory Spec2Isabelle
  imports Complex_Main "HOL-Library.Word" "HOL-Library.Signed_Division" "HOL-Library.Multiset"
begin

section \<open>The data of \<^verbatim>\<open>julia_set.c\<close>\<close>

subsection \<open>C integers\<close>

text \<open>
  Every integer variable of the program (\<^verbatim>\<open>w\<close>, \<^verbatim>\<open>h\<close>, \<^verbatim>\<open>i\<close>, \<^verbatim>\<open>j\<close>, \<^verbatim>\<open>k\<close>) is a C
  \<^verbatim>\<open>int\<close>, taken here as 32 bits wide. A value of that type is an \<^typ>\<open>int\<close> in
  the range \<open>c_int\<close>. Signed overflow is undefined behaviour in C: an arithmetic
  expression whose mathematical result leaves the range is the fault
  \<open>Signed_Overflow\<close>, and the function that evaluates it returns that fault (\<open>Inl\<close>).
\<close>

definition INT_MAX :: int where
  "INT_MAX = 2147483647"

definition INT_MIN :: int where
  "INT_MIN = - 2147483648"

definition c_int :: "int \<Rightarrow> bool" where
  "c_int v \<longleftrightarrow> INT_MIN \<le> v \<and> v \<le> INT_MAX"

text \<open>
  The ways the program can leave defined behaviour: a signed overflow, a store
  \<^verbatim>\<open>rgb[k] = ...\<close> through a null pointer or outside the allocated block (with the
  index), a write to a null \<^verbatim>\<open>FILE *\<close>, and \<^verbatim>\<open>fwrite\<close> reading past the end of the
  block it is given.
\<close>

datatype fault =
    Signed_Overflow
  | Null_Store int
  | Out_Of_Bounds int
  | Null_Stream
  | Buffer_Overrun

definition ck :: "int \<Rightarrow> fault + int" where
  "ck v = (if c_int v then Inr v else Inl Signed_Overflow)"

text \<open>Conversion of an \<^verbatim>\<open>int\<close> to \<^verbatim>\<open>size_t\<close> (64 bits, unsigned): reduction modulo \<open>2^64\<close>.\<close>

definition size_t :: "int \<Rightarrow> nat" where
  "size_t n = nat (n mod 2 ^ 64)"

subsection \<open>Bytes\<close>

type_synonym byte = "8 word"

subsection \<open>Floating-point arithmetic\<close>

text \<open>
  The program computes on \<^verbatim>\<open>float\<close>. What \<^verbatim>\<open>+\<close>, \<^verbatim>\<open>-\<close>, \<^verbatim>\<open>*\<close>, \<^verbatim>\<open>/\<close>, \<^verbatim>\<open><\<close>, the
  conversion \<^verbatim>\<open>(float) n\<close> of an \<^verbatim>\<open>int\<close> and the conversion of a decimal literal
  (\<^verbatim>\<open>-0.8\<close>, \<^verbatim>\<open>0.156\<close>) to \<^verbatim>\<open>float\<close> compute is fixed by the compiler and the
  machine, not by the program text. The functions below therefore take the arithmetic
  as a parameter \<open>F\<close>: a record of these seven operations over a type \<open>'f\<close> of float
  values. A theorem stated for an arbitrary \<open>F\<close> does not depend on what these
  operations compute. The arithmetic of IEEE 754, and its binary32 format, is defined
  further down as such a record; the theorems that depend on rounding are stated for it.
\<close>

record 'f arith =
  plus_f :: "'f \<Rightarrow> 'f \<Rightarrow> 'f"
  minus_f :: "'f \<Rightarrow> 'f \<Rightarrow> 'f"
  times_f :: "'f \<Rightarrow> 'f \<Rightarrow> 'f"
  divide_f :: "'f \<Rightarrow> 'f \<Rightarrow> 'f"
  less_f :: "'f \<Rightarrow> 'f \<Rightarrow> bool"
  float_of_int :: "int \<Rightarrow> 'f"
  float_of_decimal :: "rat \<Rightarrow> 'f"

text \<open>
  Exact arithmetic on the reals is one such record. It is used to run the functions
  on concrete inputs; it is not the arithmetic of the machine.
\<close>

definition real_arith :: "real arith" where
  "real_arith = \<lparr> plus_f = (+), minus_f = (-), times_f = (*), divide_f = (/),
     less_f = (<), float_of_int = of_int, float_of_decimal = of_rat \<rparr>"

section \<open>\<^verbatim>\<open>julia_point\<close>\<close>

text \<open>The constants \<^verbatim>\<open>float ci = 0.156; float cr = -0.8;\<close>.\<close>

definition ci :: "'f arith \<Rightarrow> 'f" where
  "ci F = float_of_decimal F (156 / 1000)"

definition cr :: "'f arith \<Rightarrow> 'f" where
  "cr F = float_of_decimal F (- (8 / 10))"

text \<open>
  Lines 186 and 188 are the same expression, once for \<open>x\<close> from \<open>(w, xl, xr, i)\<close> and
  once for \<open>y\<close> from \<open>(h, yb, yt, j)\<close>:
  \<^verbatim>\<open>((float)(n - i - 1) * lo + (float)(i) * hi) / (float)(n - 1)\<close>.
  The three \<^verbatim>\<open>int\<close> subtractions are checked for overflow.
\<close>

definition interpolate :: "'f arith \<Rightarrow> int \<Rightarrow> 'f \<Rightarrow> 'f \<Rightarrow> int \<Rightarrow> fault + 'f" where
  "interpolate F n lo hi i =
     (case ck (n - i) of Inl e \<Rightarrow> Inl e | Inr d \<Rightarrow>
     (case ck (d - 1) of Inl e \<Rightarrow> Inl e | Inr m \<Rightarrow>
     (case ck (n - 1) of Inl e \<Rightarrow> Inl e | Inr n1 \<Rightarrow>
        Inr (divide_f F
               (plus_f F (times_f F (float_of_int F m) lo) (times_f F (float_of_int F i) hi))
               (float_of_int F n1)))))"

text \<open>
  The body of the loop, lines 200 to 202, on the pair \<open>(ar, ai)\<close>:
  \<^verbatim>\<open>t = ar * ar - ai * ai + cr; ai = ar * ai + ai * ar + ci; ar = t;\<close>
\<close>

definition julia_update :: "'f arith \<Rightarrow> 'f \<times> 'f \<Rightarrow> 'f \<times> 'f" where
  "julia_update F a =
     (let ar = fst a; ai = snd a;
          t = plus_f F (minus_f F (times_f F ar ar) (times_f F ai ai)) (cr F);
          ai = plus_f F (plus_f F (times_f F ar ai) (times_f F ai ar)) (ci F);
          ar = t
      in (ar, ai))"

text \<open>The test of line 206, \<^verbatim>\<open>1000 < ar * ar + ai * ai\<close>; the \<^verbatim>\<open>int\<close> 1000 is converted.\<close>

definition rejected :: "'f arith \<Rightarrow> 'f \<times> 'f \<Rightarrow> bool" where
  "rejected F a =
     less_f F (float_of_int F 1000)
       (plus_f F (times_f F (fst a) (fst a)) (times_f F (snd a) (snd a)))"

text \<open>
  The loop \<^verbatim>\<open>for (k = 0; k < 200; k++)\<close> from the state \<open>(ar, ai)\<close> and the counter \<open>k\<close>.
  It returns the value \<^verbatim>\<open>julia_point\<close> returns (0 from the \<^verbatim>\<open>return 0\<close> inside the
  loop, 1 after it) together with the number of times the body has been executed.
\<close>

function julia_loop :: "'f arith \<Rightarrow> 'f \<times> 'f \<Rightarrow> nat \<Rightarrow> int \<times> nat" where
  "julia_loop F a k =
     (if k < 200 then
        (let a' = julia_update F a
         in if rejected F a' then (0, k + 1) else julia_loop F a' (k + 1))
      else (1, k))"
  by pat_completeness auto
termination
  by (relation "measure (\<lambda>(F, a, k). 200 - k)") auto

declare julia_loop.simps [simp del]

definition julia_point_steps ::
  "'f arith \<Rightarrow> int \<Rightarrow> int \<Rightarrow> 'f \<Rightarrow> 'f \<Rightarrow> 'f \<Rightarrow> 'f \<Rightarrow> int \<Rightarrow> int \<Rightarrow> fault + int \<times> nat" where
  "julia_point_steps F w h xl xr yb yt i j =
     (case interpolate F w xl xr i of Inl e \<Rightarrow> Inl e | Inr x \<Rightarrow>
     (case interpolate F h yb yt j of Inl e \<Rightarrow> Inl e | Inr y \<Rightarrow>
        Inr (julia_loop F (x, y) 0)))"

definition julia_point ::
  "'f arith \<Rightarrow> int \<Rightarrow> int \<Rightarrow> 'f \<Rightarrow> 'f \<Rightarrow> 'f \<Rightarrow> 'f \<Rightarrow> int \<Rightarrow> int \<Rightarrow> fault + int" where
  "julia_point F w h xl xr yb yt i j =
     (case julia_point_steps F w h xl xr yb yt i j of Inl e \<Rightarrow> Inl e | Inr r \<Rightarrow> Inr (fst r))"

section \<open>\<^verbatim>\<open>julia_rgb\<close>\<close>

text \<open>
  The memory \<^verbatim>\<open>rgb\<close> points to: \<open>None\<close> for the null pointer, else the bytes of the
  block. \<open>stores\<close> records every store \<^verbatim>\<open>rgb[k] = v\<close> performed, in program order; the
  renderer never reads \<^verbatim>\<open>rgb\<close>.
\<close>

record heap =
  block :: "byte list option"
  stores :: "(int \<times> byte) list"

definition store :: "heap \<Rightarrow> int \<Rightarrow> byte \<Rightarrow> fault + heap" where
  "store m k v =
     (case block m of
        None \<Rightarrow> Inl (Null_Store k)
      | Some b \<Rightarrow>
          if 0 \<le> k \<and> k < int (length b)
          then Inr \<lparr> block = Some (b[nat k := v]), stores = stores m @ [(k, v)] \<rparr>
          else Inl (Out_Of_Bounds k))"

text \<open>
  \<^verbatim>\<open>255 * (1 - juliaValue)\<close> converted to \<^verbatim>\<open>unsigned char\<close>. \<^verbatim>\<open>juliaValue\<close> is 0 or 1,
  so the \<^verbatim>\<open>int\<close> expression cannot overflow.
\<close>

definition colour :: "int \<Rightarrow> byte" where
  "colour juliaValue = of_int (255 * (1 - juliaValue))"

text \<open>The body of the inner loop, lines 129 to 135.\<close>

definition render_pixel ::
  "'f arith \<Rightarrow> int \<Rightarrow> int \<Rightarrow> 'f \<Rightarrow> 'f \<Rightarrow> 'f \<Rightarrow> 'f \<Rightarrow> int \<Rightarrow> int \<Rightarrow> heap \<Rightarrow> fault + heap" where
  "render_pixel F w h xl xr yb yt j i m =
     (case julia_point F w h xl xr yb yt i j of Inl e \<Rightarrow> Inl e | Inr juliaValue \<Rightarrow>
     (case ck (j * w) of Inl e \<Rightarrow> Inl e | Inr jw \<Rightarrow>
     (case ck (jw + i) of Inl e \<Rightarrow> Inl e | Inr p \<Rightarrow>
     (case ck (p * 3) of Inl e \<Rightarrow> Inl e | Inr k \<Rightarrow>
     (case store m k (colour juliaValue) of Inl e \<Rightarrow> Inl e | Inr m1 \<Rightarrow>
     (case ck (k + 1) of Inl e \<Rightarrow> Inl e | Inr k1 \<Rightarrow>
     (case store m1 k1 (colour juliaValue) of Inl e \<Rightarrow> Inl e | Inr m2 \<Rightarrow>
     (case ck (k + 2) of Inl e \<Rightarrow> Inl e | Inr k2 \<Rightarrow>
        store m2 k2 255))))))))"

text \<open>
  The inner loop \<^verbatim>\<open>for (i = 0; i < w; ++i)\<close> from the counter \<open>i\<close>, and the outer loop
  \<^verbatim>\<open>for (j = 0; j < h; ++j)\<close> from the counter \<open>j\<close>, in the order of a single thread.
  (\<^verbatim>\<open>++i\<close> and \<^verbatim>\<open>++j\<close> cannot overflow: \<open>i < w\<close> and \<open>j < h\<close> hold when they run.)
\<close>

function fill_row ::
  "'f arith \<Rightarrow> int \<Rightarrow> int \<Rightarrow> 'f \<Rightarrow> 'f \<Rightarrow> 'f \<Rightarrow> 'f \<Rightarrow> int \<Rightarrow> int \<Rightarrow> heap \<Rightarrow> fault + heap" where
  "fill_row F w h xl xr yb yt j i m =
     (if i < w then
        (case render_pixel F w h xl xr yb yt j i m of
           Inl e \<Rightarrow> Inl e
         | Inr m' \<Rightarrow> fill_row F w h xl xr yb yt j (i + 1) m')
      else Inr m)"
  by pat_completeness auto
termination
  by (relation "measure (\<lambda>(F, w, h, xl, xr, yb, yt, j, i, m). nat (w - i))") auto

declare fill_row.simps [simp del]

function fill_rows ::
  "'f arith \<Rightarrow> int \<Rightarrow> int \<Rightarrow> 'f \<Rightarrow> 'f \<Rightarrow> 'f \<Rightarrow> 'f \<Rightarrow> int \<Rightarrow> heap \<Rightarrow> fault + heap" where
  "fill_rows F w h xl xr yb yt j m =
     (if j < h then
        (case fill_row F w h xl xr yb yt j 0 m of
           Inl e \<Rightarrow> Inl e
         | Inr m' \<Rightarrow> fill_rows F w h xl xr yb yt (j + 1) m')
      else Inr m)"
  by pat_completeness auto
termination
  by (relation "measure (\<lambda>(F, w, h, xl, xr, yb, yt, j, m). nat (h - j))") auto

declare fill_rows.simps [simp del]

text \<open>
  \<^verbatim>\<open>julia_rgb\<close>. The parameter \<open>malloc\<close> is the allocator: for a size it gives \<open>None\<close>
  (the null pointer) or the contents of the fresh block, which are arbitrary. The size
  \<^verbatim>\<open>w * h * 3 * sizeof(unsigned char)\<close> is \<^verbatim>\<open>(w * h) * 3\<close> in \<^verbatim>\<open>int\<close>, converted to
  \<^verbatim>\<open>size_t\<close> and multiplied by 1. The result of \<^verbatim>\<open>malloc\<close> is not tested.
  \<open>julia_rgb_heap\<close> returns the final memory with its record of stores, \<open>julia_rgb\<close>
  what the C function returns: the pointer.
\<close>

definition julia_rgb_heap ::
  "'f arith \<Rightarrow> (nat \<Rightarrow> byte list option) \<Rightarrow> int \<Rightarrow> int \<Rightarrow> 'f \<Rightarrow> 'f \<Rightarrow> 'f \<Rightarrow> 'f \<Rightarrow> fault + heap" where
  "julia_rgb_heap F malloc w h xl xr yb yt =
     (case ck (w * h) of Inl e \<Rightarrow> Inl e | Inr wh \<Rightarrow>
     (case ck (wh * 3) of Inl e \<Rightarrow> Inl e | Inr n \<Rightarrow>
        fill_rows F w h xl xr yb yt 0 \<lparr> block = malloc (size_t n), stores = [] \<rparr>))"

definition julia_rgb ::
  "'f arith \<Rightarrow> (nat \<Rightarrow> byte list option) \<Rightarrow> int \<Rightarrow> int \<Rightarrow> 'f \<Rightarrow> 'f \<Rightarrow> 'f \<Rightarrow> 'f
     \<Rightarrow> fault + byte list option" where
  "julia_rgb F malloc w h xl xr yb yt =
     (case julia_rgb_heap F malloc w h xl xr yb yt of Inl e \<Rightarrow> Inl e | Inr m \<Rightarrow> Inr (block m))"

text \<open>Two allocators: one that always fails, one that hands out zeroed blocks.\<close>

definition malloc_fails :: "nat \<Rightarrow> byte list option" where
  "malloc_fails n = None"

definition malloc_zeroed :: "nat \<Rightarrow> byte list option" where
  "malloc_zeroed n = Some (replicate n 0)"

section \<open>\<^verbatim>\<open>tga_write\<close>\<close>

definition header1 :: "byte list" where
  "header1 = [0, 0, 2, 0, 0, 0, 0, 0, 0, 0, 0, 0]"

text \<open>
  \<^verbatim>\<open>{w % 256, w / 256, h % 256, h / 256, 24, 0}\<close>: C's \<^verbatim>\<open>/\<close> and \<^verbatim>\<open>%\<close> truncate towards
  zero (\<open>sdiv\<close>, \<open>smod\<close>), and each value is converted to \<^verbatim>\<open>unsigned char\<close>.
\<close>

definition header2 :: "int \<Rightarrow> int \<Rightarrow> byte list" where
  "header2 w h = [of_int (w smod 256), of_int (w sdiv 256),
                  of_int (h smod 256), of_int (h sdiv 256), 24, 0]"

text \<open>
  \<^verbatim>\<open>tga_write\<close> returns the contents of the file it leaves. \<open>file_unit\<close> tells whether
  \<^verbatim>\<open>fopen\<close> gave a stream (its result is not tested, and every \<^verbatim>\<open>fwrite\<close> to a stream
  is taken to write all its bytes); \<open>rgb\<close> is the block the pointer refers to, \<open>None\<close>
  for the null pointer. The count \<^verbatim>\<open>3 * w * h\<close> is \<^verbatim>\<open>(3 * w) * h\<close> in \<^verbatim>\<open>int\<close>, converted
  to \<^verbatim>\<open>size_t\<close>. The console output is not part of the result.
\<close>

definition tga_write :: "bool \<Rightarrow> int \<Rightarrow> int \<Rightarrow> byte list option \<Rightarrow> fault + byte list" where
  "tga_write file_unit w h rgb =
     (if \<not> file_unit then Inl Null_Stream
      else
       (case ck (3 * w) of Inl e \<Rightarrow> Inl e | Inr w3 \<Rightarrow>
       (case ck (w3 * h) of Inl e \<Rightarrow> Inl e | Inr n \<Rightarrow>
          (let bytes = (case rgb of None \<Rightarrow> [] | Some b \<Rightarrow> b)
           in if size_t n \<le> length bytes
              then Inr (header1 @ header2 w h @ take (size_t n) bytes)
              else Inl Buffer_Overrun))))"

section \<open>\<^verbatim>\<open>main\<close>\<close>

text \<open>
  \<^verbatim>\<open>main\<close> renders the 20000 by 20000 grid over \<open>[-1.5, 1.5] \<times> [-1.5, 1.5]\<close> and writes
  the file. It returns the contents of the file.
\<close>

definition main :: "'f arith \<Rightarrow> (nat \<Rightarrow> byte list option) \<Rightarrow> bool \<Rightarrow> fault + byte list" where
  "main F malloc file_unit =
     (let size = 20;
          h = 1000 * size;
          w = 1000 * size;
          xl = float_of_decimal F (- (3 / 2));
          xr = float_of_decimal F (3 / 2);
          yb = float_of_decimal F (- (3 / 2));
          yt = float_of_decimal F (3 / 2)
      in (case julia_rgb F malloc w h xl xr yb yt of
            Inl e \<Rightarrow> Inl e
          | Inr rgb \<Rightarrow> tga_write file_unit w h rgb))"

section \<open>What the claims speak of\<close>

text \<open>The linear interpolation as a formula, without the overflow checks.\<close>

definition coord :: "'f arith \<Rightarrow> int \<Rightarrow> 'f \<Rightarrow> 'f \<Rightarrow> int \<Rightarrow> 'f" where
  "coord F n lo hi i =
     divide_f F
       (plus_f F (times_f F (float_of_int F (n - i - 1)) lo) (times_f F (float_of_int F i) hi))
       (float_of_int F (n - 1))"

text \<open>The state \<open>(ar, ai)\<close> of the loop after \<open>n\<close> executions of its body.\<close>

definition orbit :: "'f arith \<Rightarrow> 'f \<times> 'f \<Rightarrow> nat \<Rightarrow> 'f \<times> 'f" where
  "orbit F a n = (julia_update F ^^ n) a"

text \<open>
  The iteration of the specification, \<open>a \<leftarrow> a\<^sup>2 + c\<close> on pairs \<open>(ar, ai)\<close> for a constant
  \<open>c = (cr, ci)\<close>: the new pair is \<open>(ar\<^sup>2 - ai\<^sup>2 + cr, 2 ar ai + ci)\<close>, both components
  from the old pair, the double product being the sum \<open>ar ai + ai ar\<close>. \<open>iterate\<close> is
  the pair after \<open>n\<close> updates and \<open>exceeds\<close> the threshold test \<open>ar\<^sup>2 + ai\<^sup>2 > 1000\<close>.
  They are written with the operations of \<open>F\<close> alone.
\<close>

definition quadratic_map :: "'f arith \<Rightarrow> 'f \<times> 'f \<Rightarrow> 'f \<times> 'f \<Rightarrow> 'f \<times> 'f" where
  "quadratic_map F c a =
     (plus_f F (minus_f F (times_f F (fst a) (fst a)) (times_f F (snd a) (snd a))) (fst c),
      plus_f F (plus_f F (times_f F (fst a) (snd a)) (times_f F (snd a) (fst a))) (snd c))"

definition iterate :: "'f arith \<Rightarrow> 'f \<times> 'f \<Rightarrow> 'f \<times> 'f \<Rightarrow> nat \<Rightarrow> 'f \<times> 'f" where
  "iterate F c a n = (quadratic_map F c ^^ n) a"

definition exceeds :: "'f arith \<Rightarrow> 'f \<times> 'f \<Rightarrow> bool" where
  "exceeds F a \<longleftrightarrow>
     less_f F (float_of_int F 1000)
       (plus_f F (times_f F (fst a) (fst a)) (times_f F (snd a) (snd a)))"


text \<open>The offset of pixel \<open>(i, j)\<close> in the buffer, line 132: \<^verbatim>\<open>k = (j * w + i) * 3\<close>.\<close>

definition offset :: "int \<Rightarrow> int \<Rightarrow> int \<Rightarrow> int" where
  "offset w i j = (j * w + i) * 3"

text \<open>
  What \<^verbatim>\<open>julia_point\<close> returns for a pixel of the grid, where none of its \<^verbatim>\<open>int\<close>
  subtractions can overflow.
\<close>

definition pixel_value ::
  "'f arith \<Rightarrow> int \<Rightarrow> int \<Rightarrow> 'f \<Rightarrow> 'f \<Rightarrow> 'f \<Rightarrow> 'f \<Rightarrow> int \<Rightarrow> int \<Rightarrow> int" where
  "pixel_value F w h xl xr yb yt i j =
     fst (julia_loop F (coord F w xl xr i, coord F h yb yt j) 0)"

text \<open>
  The byte the finished image holds at position \<open>p\<close>: pixel \<open>p div 3\<close> in row-major
  order, channel \<open>p mod 3\<close>.
\<close>

definition expected_byte ::
  "'f arith \<Rightarrow> int \<Rightarrow> int \<Rightarrow> 'f \<Rightarrow> 'f \<Rightarrow> 'f \<Rightarrow> 'f \<Rightarrow> nat \<Rightarrow> byte" where
  "expected_byte F w h xl xr yb yt p =
     (if p mod 3 = 2 then 255
      else colour (pixel_value F w h xl xr yb yt (int (p div 3) mod w) (int (p div 3) div w)))"

definition image :: "'f arith \<Rightarrow> int \<Rightarrow> int \<Rightarrow> 'f \<Rightarrow> 'f \<Rightarrow> 'f \<Rightarrow> 'f \<Rightarrow> byte list" where
  "image F w h xl xr yb yt = map (expected_byte F w h xl xr yb yt) [0..<nat (w * h * 3)]"

text \<open>
  The memory while the single-thread loops run: the first \<open>c\<close> bytes written, the
  rest of the block \<open>init\<close> untouched, and the \<open>c\<close> stores recorded in order.
\<close>

definition filled :: "(nat \<Rightarrow> byte) \<Rightarrow> byte list \<Rightarrow> nat \<Rightarrow> heap" where
  "filled E init c =
     \<lparr> block = Some (map E [0..<c] @ drop c init),
       stores = map (\<lambda>p. (int p, E p)) [0..<c] \<rparr>"

text \<open>
  Performing a list of stores \<^verbatim>\<open>rgb[k] = v\<close> on a block, in the order of the list.
  Under \<^verbatim>\<open>#pragma omp parallel for private(i, j, k) schedule(dynamic)\<close> the rows are
  handed to several workers, each with its own \<open>i\<close>, \<open>j\<close>, \<open>k\<close>; the only shared
  memory a worker writes is \<^verbatim>\<open>rgb\<close>, and \<^verbatim>\<open>julia_point\<close> reads none of it. A run with
  several workers therefore evaluates the pixels in some other order, and performs the
  stores of the single-thread run interleaved in some order. \<open>render_pixels\<close> runs
  the loop body \<open>render_pixel\<close> over a list of pixels \<open>(i, j)\<close> in the order of the
  list; \<open>replay\<close> performs a list of stores in the order of the list.
\<close>

fun render_pixels ::
  "'f arith \<Rightarrow> int \<Rightarrow> int \<Rightarrow> 'f \<Rightarrow> 'f \<Rightarrow> 'f \<Rightarrow> 'f \<Rightarrow> (int \<times> int) list \<Rightarrow> heap \<Rightarrow> fault + heap" where
  "render_pixels F w h xl xr yb yt [] m = Inr m"
| "render_pixels F w h xl xr yb yt (p # ps) m =
     (case render_pixel F w h xl xr yb yt (snd p) (fst p) m of
        Inl e \<Rightarrow> Inl e
      | Inr m' \<Rightarrow> render_pixels F w h xl xr yb yt ps m')"

definition replay :: "(int \<times> byte) list \<Rightarrow> byte list \<Rightarrow> byte list" where
  "replay ss b = fold (\<lambda>kv b. b[nat (fst kv) := snd kv]) ss b"

section \<open>IEEE 754 arithmetic\<close>

text \<open>
  On the machines the program is built for, \<^verbatim>\<open>float\<close> is the binary32 format of
  IEEE 754 and every operation is rounded once, to nearest with ties to even. This
  section defines that arithmetic as one record of operations, \<open>binary32\<close>.

  A float is a signed zero or number \<open>(-1)\<^sup>s m 2\<^sup>e\<close> with an integer significand
  \<open>m \<ge> 0\<close>, an infinity or a NaN. The signs and the special values of the results
  follow the standard; how a magnitude is rounded is the parameter \<open>rnd\<close>: from the
  exact result \<open>(n / d) 2\<^sup>e\<close> it gives the significand and exponent of the rounded
  magnitude, or \<open>None\<close> on overflow.
\<close>

datatype fp = Finite bool int int | Infinity bool | NaN

fun fp_neg :: "fp \<Rightarrow> fp" where
  "fp_neg (Finite s m e) = Finite (\<not> s) m e"
| "fp_neg (Infinity s) = Infinity (\<not> s)"
| "fp_neg NaN = NaN"

text \<open>The two zeros, and two relations used for the symmetry of the evaluator.\<close>

definition is_zero :: "fp \<Rightarrow> bool" where
  "is_zero x \<longleftrightarrow> (x = Finite False 0 0 \<or> x = Finite True 0 0)"

definition opposite :: "fp \<Rightarrow> fp \<Rightarrow> bool" where
  "opposite x x' \<longleftrightarrow> x' = fp_neg x \<or> (is_zero x \<and> is_zero x')"

definition same_or_zero :: "fp \<Rightarrow> fp \<Rightarrow> bool" where
  "same_or_zero x x' \<longleftrightarrow> x' = x \<or> (is_zero x \<and> is_zero x')"

type_synonym rounding = "int \<Rightarrow> int \<Rightarrow> int \<Rightarrow> (int \<times> int) option"

definition fp_round :: "rounding \<Rightarrow> bool \<Rightarrow> int \<Rightarrow> int \<Rightarrow> int \<Rightarrow> fp" where
  "fp_round rnd s n d e =
     (case rnd n d e of
        None \<Rightarrow> Infinity s
      | Some (m, e') \<Rightarrow> if m = 0 then Finite s 0 0 else Finite s m e')"

text \<open>
  Multiplication: NaN propagates, \<open>0 \<times> \<infinity>\<close> is NaN, the sign is the exclusive or of
  the signs.
\<close>

fun fp_times :: "rounding \<Rightarrow> fp \<Rightarrow> fp \<Rightarrow> fp" where
  "fp_times rnd NaN y = NaN"
| "fp_times rnd x NaN = NaN"
| "fp_times rnd (Infinity s) (Infinity t) = Infinity (s \<noteq> t)"
| "fp_times rnd (Infinity s) (Finite t m e) = (if m = 0 then NaN else Infinity (s \<noteq> t))"
| "fp_times rnd (Finite s m e) (Infinity t) = (if m = 0 then NaN else Infinity (s \<noteq> t))"
| "fp_times rnd (Finite s m1 e1) (Finite t m2 e2) =
     (if m1 = 0 \<or> m2 = 0 then Finite (s \<noteq> t) 0 0
      else fp_round rnd (s \<noteq> t) (m1 * m2) 1 (e1 + e2))"

text \<open>
  Addition: \<open>\<infinity> - \<infinity>\<close> is NaN; an exact sum of zero is \<open>+0\<close>, except that
  \<open>(-0) + (-0)\<close> is \<open>-0\<close>. Subtraction adds the negation.
\<close>

definition signed :: "bool \<Rightarrow> int \<Rightarrow> int" where
  "signed s m = (if s then - m else m)"

fun fp_plus :: "rounding \<Rightarrow> fp \<Rightarrow> fp \<Rightarrow> fp" where
  "fp_plus rnd NaN y = NaN"
| "fp_plus rnd x NaN = NaN"
| "fp_plus rnd (Infinity s) (Infinity t) = (if s = t then Infinity s else NaN)"
| "fp_plus rnd (Infinity s) (Finite t m e) = Infinity s"
| "fp_plus rnd (Finite s m e) (Infinity t) = Infinity t"
| "fp_plus rnd (Finite s m1 e1) (Finite t m2 e2) =
     (let e = min e1 e2;
          a = signed s (m1 * 2 ^ nat (e1 - e)) + signed t (m2 * 2 ^ nat (e2 - e))
      in if a = 0 then Finite (s \<and> t) 0 0
         else fp_round rnd (a < 0) \<bar>a\<bar> 1 e)"

definition fp_minus :: "rounding \<Rightarrow> fp \<Rightarrow> fp \<Rightarrow> fp" where
  "fp_minus rnd x y = fp_plus rnd x (fp_neg y)"

text \<open>Division: \<open>0 / 0\<close> and \<open>\<infinity> / \<infinity>\<close> are NaN, \<open>x / 0\<close> is an infinity.\<close>

fun fp_divide :: "rounding \<Rightarrow> fp \<Rightarrow> fp \<Rightarrow> fp" where
  "fp_divide rnd NaN y = NaN"
| "fp_divide rnd x NaN = NaN"
| "fp_divide rnd (Infinity s) (Infinity t) = NaN"
| "fp_divide rnd (Infinity s) (Finite t m e) = Infinity (s \<noteq> t)"
| "fp_divide rnd (Finite s m e) (Infinity t) = Finite (s \<noteq> t) 0 0"
| "fp_divide rnd (Finite s m1 e1) (Finite t m2 e2) =
     (if m2 = 0 then (if m1 = 0 then NaN else Infinity (s \<noteq> t))
      else if m1 = 0 then Finite (s \<noteq> t) 0 0
      else fp_round rnd (s \<noteq> t) m1 m2 (e1 - e2))"

text \<open>Comparison: false when an operand is NaN; the two zeros are equal.\<close>

fun fp_less :: "fp \<Rightarrow> fp \<Rightarrow> bool" where
  "fp_less NaN y = False"
| "fp_less x NaN = False"
| "fp_less (Infinity s) (Infinity t) = (s \<and> \<not> t)"
| "fp_less (Infinity s) (Finite t m e) = s"
| "fp_less (Finite s m e) (Infinity t) = (\<not> t)"
| "fp_less (Finite s m1 e1) (Finite t m2 e2) =
     (let e = min e1 e2
      in signed s (m1 * 2 ^ nat (e1 - e)) < signed t (m2 * 2 ^ nat (e2 - e)))"

definition fp_of_int :: "rounding \<Rightarrow> int \<Rightarrow> fp" where
  "fp_of_int rnd n = (if n = 0 then Finite False 0 0 else fp_round rnd (n < 0) \<bar>n\<bar> 1 0)"

text \<open>
  Rounding to nearest, ties to even, in a binary format with \<open>prec\<close> significand
  bits, smallest exponent \<open>emin\<close> (of the subnormal numbers) and largest exponent
  \<open>emax\<close>. \<open>bitlen n\<close> is the number of binary digits of \<open>n\<close>; \<open>E\<close> is the exponent of
  the result before a carry, \<open>m\<close> and \<open>r\<close> the quotient and remainder of the exact
  value by \<open>2\<^sup>E\<close>.
\<close>

function bitlen :: "int \<Rightarrow> int" where
  "bitlen n = (if n \<le> 0 then 0 else 1 + bitlen (n div 2))"
  by pat_completeness auto
termination
  by (relation "measure nat") auto

declare bitlen.simps [simp del]

record format =
  prec :: nat
  emin :: int
  emax :: int

definition round_binary :: "format \<Rightarrow> rounding" where
  "round_binary f n d e =
     (let k = bitlen n - bitlen d;
          lo = (if 0 \<le> k then n < d * 2 ^ nat k else n * 2 ^ nat (- k) < d);
          E = max (emin f) (e + k - int (prec f) + (if lo then 0 else 1));
          N = (if E \<le> e then n * 2 ^ nat (e - E) else n);
          D = (if E \<le> e then d else d * 2 ^ nat (E - e));
          m = N div D;
          r = N mod D;
          m' = (if 2 * r < D then m else if D < 2 * r then m + 1
                else if even m then m else m + 1);
          m'' = (if m' = 2 ^ prec f then 2 ^ (prec f - 1) else m');
          E' = (if m' = 2 ^ prec f then E + 1 else E)
      in if m'' = 0 then Some (0, 0)
         else if emax f < E' then None
         else Some (m'', E'))"

definition binary32_format :: format where
  "binary32_format = \<lparr> prec = 24, emin = - 149, emax = 104 \<rparr>"

definition binary64_format :: format where
  "binary64_format = \<lparr> prec = 53, emin = - 1074, emax = 971 \<rparr>"

text \<open>
  A decimal literal is a \<^verbatim>\<open>double\<close> constant, converted to \<^verbatim>\<open>float\<close> by the
  initialisation: two roundings.
\<close>

definition fp_of_decimal :: "rat \<Rightarrow> fp" where
  "fp_of_decimal r =
     (let a = fst (quotient_of r); b = snd (quotient_of r)
      in if a = 0 then Finite False 0 0
         else (case round_binary binary64_format \<bar>a\<bar> b 0 of
                 None \<Rightarrow> Infinity (a < 0)
               | Some (m, e) \<Rightarrow>
                   if m = 0 then Finite (a < 0) 0 0
                   else fp_round (round_binary binary32_format) (a < 0) m 1 e))"

definition ieee_arith :: "rounding \<Rightarrow> (rat \<Rightarrow> fp) \<Rightarrow> fp arith" where
  "ieee_arith rnd dec =
     \<lparr> plus_f = fp_plus rnd, minus_f = fp_minus rnd, times_f = fp_times rnd,
       divide_f = fp_divide rnd, less_f = fp_less, float_of_int = fp_of_int rnd,
       float_of_decimal = dec \<rparr>"

definition binary32 :: "fp arith" where
  "binary32 = ieee_arith (round_binary binary32_format) fp_of_decimal"

section \<open>The evaluator\<close>

lemma julia_loop_unfold:
  "julia_loop F a k =
     (if k < 200 then
        (if rejected F (julia_update F a) then (0, k + 1)
         else julia_loop F (julia_update F a) (k + 1))
      else (1, k))"
  by (subst julia_loop.simps) (simp add: Let_def)

lemma orbit_Suc: "orbit F a (Suc n) = orbit F (julia_update F a) n"
  by (simp add: orbit_def funpow_swap1)

lemma julia_loop_bound:
  "k \<le> 200 \<Longrightarrow> snd (julia_loop F a k) \<le> 200 \<and> k \<le> snd (julia_loop F a k)
     \<and> (fst (julia_loop F a k) = 0 \<or> fst (julia_loop F a k) = 1)"
proof (induction F a k rule: julia_loop.induct)
  case (1 F a k)
  show ?case
  proof (cases "k < 200")
    case True
    note lt = this
    show ?thesis
    proof (cases "rejected F (julia_update F a)")
      case True
      with lt show ?thesis by (subst (1 2 3 4) julia_loop_unfold) simp
    next
      case False
      with lt 1 have "snd (julia_loop F (julia_update F a) (k + 1)) \<le> 200 \<and>
          k + 1 \<le> snd (julia_loop F (julia_update F a) (k + 1)) \<and>
          (fst (julia_loop F (julia_update F a) (k + 1)) = 0 \<or>
           fst (julia_loop F (julia_update F a) (k + 1)) = 1)"
        by simp
      with lt False show ?thesis by (subst (1 2 3 4) julia_loop_unfold) simp
    qed
  next
    case False
    with 1 show ?thesis by (subst (1 2 3 4) julia_loop_unfold) simp
  qed
qed

lemma interpolate_valid:
  assumes "c_int n" "0 \<le> i" "i < n"
  shows "interpolate F n lo hi i = Inr (coord F n lo hi i)"
  using assms by (simp add: interpolate_def coord_def ck_def c_int_def INT_MIN_def INT_MAX_def)

lemma julia_point_steps_valid:
  assumes "c_int w" "c_int h" "0 \<le> i" "i < w" "0 \<le> j" "j < h"
  shows "julia_point_steps F w h xl xr yb yt i j =
           Inr (julia_loop F (coord F w xl xr i, coord F h yb yt j) 0)"
  using assms by (simp add: julia_point_steps_def interpolate_valid)

text \<open>Evaluation on concrete inputs, in exact real arithmetic.\<close>

lemmas real_eval =
  real_arith_def julia_update_def rejected_def cr_def ci_def coord_def Let_def
  of_rat_divide of_rat_minus of_rat_numeral_eq

lemma corner_escapes: "julia_loop real_arith (3 / 2, 3 / 2) 0 = (0, 3)"
  apply (subst julia_loop_unfold)
  apply (simp add: real_eval)
  apply (subst julia_loop_unfold)
  apply (simp add: real_eval)
  apply (subst julia_loop_unfold)
  apply (simp add: real_eval)
  done

lemma orbit_1: "orbit F a (Suc 0) = julia_update F a"
  by (simp add: orbit_def)

lemma orbit_shift: "1 \<le> m \<Longrightarrow> orbit F a (Suc m) = orbit F (julia_update F a) m"
  by (simp add: orbit_Suc)

lemma julia_loop_first:
  "k \<le> 200 \<Longrightarrow> julia_loop F a k = (r, n) \<Longrightarrow>
     k \<le> n \<and> n \<le> 200 \<and> (\<forall>m. 1 \<le> m \<and> m < n - k \<longrightarrow> \<not> rejected F (orbit F a m))
     \<and> (r = 0 \<and> k < n \<and> rejected F (orbit F a (n - k))
        \<or> r = 1 \<and> n = 200 \<and> (\<forall>m. 1 \<le> m \<and> m \<le> 200 - k \<longrightarrow> \<not> rejected F (orbit F a m)))"
proof (induction F a k arbitrary: r n rule: julia_loop.induct)
  case (1 F a k)
  let ?a' = "julia_update F a"
  show ?case
  proof (cases "k < 200")
    case False
    with "1.prems" julia_loop_unfold [of F a k] have "r = 1" "n = 200" "k = 200"
      by auto
    then show ?thesis by simp
  next
    case lt: True
    show ?thesis
    proof (cases "rejected F ?a'")
      case True
      with lt "1.prems" julia_loop_unfold [of F a k] have "r = 0" "n = k + 1"
        by auto
      with True lt show ?thesis by (simp add: orbit_1)
    next
      case False
      with lt "1.prems" julia_loop_unfold [of F a k]
      have eq: "julia_loop F ?a' (k + 1) = (r, n)"
        by auto
      from lt have "k + 1 \<le> 200" by simp
      from "1.IH" [OF lt refl False this eq]
      have ih: "k + 1 \<le> n" "n \<le> 200"
        "\<And>m. 1 \<le> m \<Longrightarrow> m < n - (k + 1) \<Longrightarrow> \<not> rejected F (orbit F ?a' m)"
        "r = 0 \<and> k + 1 < n \<and> rejected F (orbit F ?a' (n - (k + 1)))
          \<or> r = 1 \<and> n = 200 \<and> (\<forall>m. 1 \<le> m \<and> m \<le> 200 - (k + 1) \<longrightarrow> \<not> rejected F (orbit F ?a' m))"
        by blast+
      have step: "\<not> rejected F (orbit F a m)"
        if "1 \<le> m" and "m = 1 \<or> \<not> rejected F (orbit F ?a' (m - 1))" for m
      proof (cases "m = 1")
        case True
        with False show ?thesis by (simp add: orbit_1)
      next
        case False
        with that obtain m' where m': "m = Suc m'" "1 \<le> m'" by (cases m) auto
        with that False show ?thesis by (simp add: orbit_Suc)
      qed
      have before: "\<forall>m. 1 \<le> m \<and> m < n - k \<longrightarrow> \<not> rejected F (orbit F a m)"
      proof (intro allI impI)
        fix m assume m: "1 \<le> m \<and> m < n - k"
        show "\<not> rejected F (orbit F a m)"
        proof (rule step)
          show "1 \<le> m" using m by simp
          show "m = 1 \<or> \<not> rejected F (orbit F ?a' (m - 1))"
          proof (cases "m = 1")
            case True
            then show ?thesis by simp
          next
            case False
            with m have "1 \<le> m - 1" "m - 1 < n - (k + 1)" by arith+
            then show ?thesis using ih(3) by blast
          qed
        qed
      qed
      from ih(4) show ?thesis
      proof
        assume r0: "r = 0 \<and> k + 1 < n \<and> rejected F (orbit F ?a' (n - (k + 1)))"
        then have "orbit F a (n - k) = orbit F ?a' (n - (k + 1))"
          using orbit_Suc [of F a "n - (k + 1)"] by (simp add: Suc_diff_Suc)
        with r0 ih before show ?thesis by simp
      next
        assume r1: "r = 1 \<and> n = 200 \<and> (\<forall>m. 1 \<le> m \<and> m \<le> 200 - (k + 1) \<longrightarrow> \<not> rejected F (orbit F ?a' m))"
        have "\<forall>m. 1 \<le> m \<and> m \<le> 200 - k \<longrightarrow> \<not> rejected F (orbit F a m)"
        proof (intro allI impI)
          fix m assume m: "1 \<le> m \<and> m \<le> 200 - k"
          show "\<not> rejected F (orbit F a m)"
          proof (rule step)
            show "1 \<le> m" using m by simp
            show "m = 1 \<or> \<not> rejected F (orbit F ?a' (m - 1))"
            proof (cases "m = 1")
              case True
              then show ?thesis by simp
            next
              case False
              with m have "1 \<le> m - 1 \<and> m - 1 \<le> 200 - (k + 1)" by arith
              then show ?thesis using r1 by blast
            qed
          qed
        qed
        with r1 ih before show ?thesis by simp
      qed
    qed
  qed
qed

lemma julia_update_map:
  "julia_update F =
     quadratic_map F (float_of_decimal F (- (8 / 10)), float_of_decimal F (156 / 1000))"
  by (rule ext) (simp add: julia_update_def quadratic_map_def cr_def ci_def Let_def)

lemma rejected_exceeds: "rejected F = exceeds F"
  by (rule ext) (simp add: rejected_def exceeds_def)

lemma orbit_iterate:
  "orbit F a n =
     iterate F (float_of_decimal F (- (8 / 10)), float_of_decimal F (156 / 1000)) a n"
  by (simp add: orbit_def iterate_def julia_update_map)

lemma julia_point_orbit:
  assumes "c_int w" "c_int h" "1 < w" "1 < h" "0 \<le> i" "i < w" "0 \<le> j" "j < h"
  shows "\<exists>r n. julia_point_steps F w h xl xr yb yt i j = Inr (r, n)
      \<and> julia_point F w h xl xr yb yt i j = Inr r
      \<and> 1 \<le> n \<and> n \<le> 200 \<and> (r = 0 \<or> r = 1) \<and> (r = 1 \<longrightarrow> n = 200)
      \<and> (\<forall>m. 1 \<le> m \<and> m < n \<longrightarrow>
            \<not> exceeds F (iterate F (float_of_decimal F (- (8 / 10)), float_of_decimal F (156 / 1000))
                            (coord F w xl xr i, coord F h yb yt j) m))
      \<and> (r = 0 \<longleftrightarrow>
            exceeds F (iterate F (float_of_decimal F (- (8 / 10)), float_of_decimal F (156 / 1000))
                          (coord F w xl xr i, coord F h yb yt j) n))
      \<and> (r = 1 \<longleftrightarrow> (\<forall>m. 1 \<le> m \<and> m \<le> 200 \<longrightarrow>
            \<not> exceeds F (iterate F (float_of_decimal F (- (8 / 10)), float_of_decimal F (156 / 1000))
                            (coord F w xl xr i, coord F h yb yt j) m)))"
proof -
  let ?a = "(coord F w xl xr i, coord F h yb yt j)"
  obtain r n where rn: "julia_loop F ?a 0 = (r, n)" by (cases "julia_loop F ?a 0")
  have s: "julia_point_steps F w h xl xr yb yt i j = Inr (r, n)"
    using assms rn by (simp add: julia_point_steps_valid)
  have p: "julia_point F w h xl xr yb yt i j = Inr r"
    by (simp add: julia_point_def s)
  from julia_loop_first [OF _ rn]
  have f: "n \<le> 200" "\<forall>m. 1 \<le> m \<and> m < n \<longrightarrow> \<not> rejected F (orbit F ?a m)"
    "r = 0 \<and> 0 < n \<and> rejected F (orbit F ?a n)
      \<or> r = 1 \<and> n = 200 \<and> (\<forall>m. 1 \<le> m \<and> m \<le> 200 \<longrightarrow> \<not> rejected F (orbit F ?a m))"
    by simp_all
  from f(3) have g: "1 \<le> n" "r = 0 \<or> r = 1" "r = 1 \<longrightarrow> n = 200" by auto
  from f(3) have h0: "r = 0 \<longleftrightarrow> rejected F (orbit F ?a n)" by auto
  from f(1,3) g(1) have h1: "r = 1 \<longleftrightarrow>
      (\<forall>m. 1 \<le> m \<and> m \<le> 200 \<longrightarrow> \<not> rejected F (orbit F ?a m))" by auto
  from s p f(1,2) g h0 h1 show ?thesis
    unfolding rejected_exceeds orbit_iterate by blast
qed

lemma quadratic_map_real:
  "quadratic_map real_arith
     (float_of_decimal real_arith (- (8 / 10)), float_of_decimal real_arith (156 / 1000)) (ar, ai)
   = (ar\<^sup>2 - ai\<^sup>2 + - (8 / 10), 2 * ar * ai + 156 / 1000)"
  by (simp add: quadratic_map_def real_arith_def power2_eq_square
      of_rat_divide of_rat_minus)

lemma quadratic_map_complex:
  "(case quadratic_map real_arith
     (float_of_decimal real_arith (- (8 / 10)), float_of_decimal real_arith (156 / 1000)) (ar, ai)
    of (tr, ti) \<Rightarrow> Complex tr ti)
   = (Complex ar ai)\<^sup>2 + Complex (- (8 / 10)) (156 / 1000)"
  by (simp add: quadratic_map_def real_arith_def power2_eq_square
      of_rat_divide of_rat_minus complex_eq_iff)

lemma exceeds_real: "exceeds real_arith (ar, ai) \<longleftrightarrow> ar\<^sup>2 + ai\<^sup>2 > 1000"
  by (simp add: exceeds_def real_arith_def power2_eq_square)

lemma coord_real:
  "coord real_arith w xl xr i
     = ((of_int w - of_int i - 1) * xl + of_int i * xr) / (of_int w - 1)"
  by (simp add: coord_def real_arith_def)


text \<open>
  Claim C7. For a grid with \<open>W > 1\<close> and \<open>H > 1\<close> (of type \<^verbatim>\<open>int\<close>) and a pixel of the
  grid, \<^verbatim>\<open>julia_point\<close> returns: it yields a value, that value is 0 or 1, and the loop
  body has run at most 200 times. (That the loop itself ends is the termination proof
  of \<open>julia_loop\<close>.)
\<close>

theorem julia_point_terminates:
  assumes "c_int w" "c_int h" "1 < w" "1 < h" "0 \<le> i" "i < w" "0 \<le> j" "j < h"
  shows "\<exists>r n. julia_point_steps F w h xl xr yb yt i j = Inr (r, n)
           \<and> julia_point F w h xl xr yb yt i j = Inr r
           \<and> n \<le> 200 \<and> (r = 0 \<or> r = 1)"
proof -
  let ?a = "(coord F w xl xr i, coord F h yb yt j)"
  have s: "julia_point_steps F w h xl xr yb yt i j = Inr (julia_loop F ?a 0)"
    using assms by (simp add: julia_point_steps_valid)
  have b: "snd (julia_loop F ?a 0) \<le> 200 \<and>
      (fst (julia_loop F ?a 0) = 0 \<or> fst (julia_loop F ?a 0) = 1)"
    using julia_loop_bound [of 0 F ?a] by simp
  show ?thesis
    using s b by (cases "julia_loop F ?a 0") (auto simp: julia_point_def)
qed

theorem julia_point_terminates_witness:
  "c_int 2 \<and> (1::int) < 2 \<and> (0::int) \<le> 1
     \<and> (\<exists>r n. julia_point_steps real_arith 2 2 (- (3 / 2)) (3 / 2) (- (3 / 2)) (3 / 2) 1 1 = Inr (r, n)
           \<and> julia_point real_arith 2 2 (- (3 / 2)) (3 / 2) (- (3 / 2)) (3 / 2) 1 1 = Inr r
           \<and> n \<le> 200 \<and> (r = 0 \<or> r = 1))"
  using julia_point_terminates [of 2 2 1 1 real_arith "- (3 / 2)" "3 / 2" "- (3 / 2)" "3 / 2"]
  by (simp add: c_int_def INT_MIN_def INT_MAX_def)


text \<open>
  Claim C1. For a grid with \<open>W > 1\<close>, \<open>H > 1\<close> and a pixel \<open>(i, j)\<close> of it,
  \<^verbatim>\<open>julia_point\<close> starts from the point \<open>(x, y)\<close> given by the linear interpolation
  \<open>coord\<close> and iterates \<open>t = ar\<^sup>2 - ai\<^sup>2 + cr; ai = 2 ar ai + ci; ar = t\<close> with
  \<open>c = -0.8 + 0.156 i\<close> (\<open>iterate\<close>, with the constants converted to the float type):
  it returns after \<open>n\<close> updates, \<open>1 \<le> n \<le> 200\<close>; no iterate before the \<open>n\<close>-th exceeds
  the threshold; it returns 0 exactly when the \<open>n\<close>-th iterate exceeds it, so on the
  first step at which the test holds; and it returns 1 if and only if none of the 200
  iterates exceeds it, and then all 200 updates have run. This holds for every float
  arithmetic \<open>F\<close>.

  The remaining parts say what \<open>coord\<close>, \<open>quadratic_map\<close> and \<open>exceeds\<close> are in exact
  arithmetic: the interpolation \<open>((W - i - 1) xl + i xr) / (W - 1)\<close>, the pair
  \<open>(ar\<^sup>2 - ai\<^sup>2 - 0.8, 2 ar ai + 0.156)\<close>, which is \<open>a\<^sup>2 + c\<close> on the complex numbers, and
  the test \<open>ar\<^sup>2 + ai\<^sup>2 > 1000\<close>.
\<close>

theorem julia_point_first_escape:
  assumes "c_int w" "c_int h" "1 < w" "1 < h" "0 \<le> i" "i < w" "0 \<le> j" "j < h"
  shows "(\<exists>r n. julia_point_steps F w h xl xr yb yt i j = Inr (r, n)
      \<and> julia_point F w h xl xr yb yt i j = Inr r
      \<and> 1 \<le> n \<and> n \<le> 200 \<and> (r = 0 \<or> r = 1) \<and> (r = 1 \<longrightarrow> n = 200)
      \<and> (\<forall>m. 1 \<le> m \<and> m < n \<longrightarrow>
            \<not> exceeds F (iterate F (float_of_decimal F (- (8 / 10)), float_of_decimal F (156 / 1000))
                            (coord F w xl xr i, coord F h yb yt j) m))
      \<and> (r = 0 \<longleftrightarrow>
            exceeds F (iterate F (float_of_decimal F (- (8 / 10)), float_of_decimal F (156 / 1000))
                          (coord F w xl xr i, coord F h yb yt j) n))
      \<and> (r = 1 \<longleftrightarrow> (\<forall>m. 1 \<le> m \<and> m \<le> 200 \<longrightarrow>
            \<not> exceeds F (iterate F (float_of_decimal F (- (8 / 10)), float_of_decimal F (156 / 1000))
                            (coord F w xl xr i, coord F h yb yt j) m))))
    \<and> (\<forall>n lo hi k. coord real_arith n lo hi k
          = ((of_int n - of_int k - 1) * lo + of_int k * hi) / (of_int n - 1))
    \<and> (\<forall>ar ai. quadratic_map real_arith
          (float_of_decimal real_arith (- (8 / 10)), float_of_decimal real_arith (156 / 1000))
          (ar, ai)
        = (ar\<^sup>2 - ai\<^sup>2 + - (8 / 10), 2 * ar * ai + 156 / 1000))
    \<and> (\<forall>ar ai. (case quadratic_map real_arith
          (float_of_decimal real_arith (- (8 / 10)), float_of_decimal real_arith (156 / 1000))
          (ar, ai) of (tr, ti) \<Rightarrow> Complex tr ti)
        = (Complex ar ai)\<^sup>2 + Complex (- (8 / 10)) (156 / 1000))
    \<and> (\<forall>ar ai. exceeds real_arith (ar, ai) \<longleftrightarrow> 1000 < ar\<^sup>2 + ai\<^sup>2)"
  by (intro conjI allI julia_point_orbit [OF assms] coord_real quadratic_map_real
      quadratic_map_complex exceeds_real)

lemma coord_corner: "coord real_arith 2 (- (3 / 2)) (3 / 2) 1 = 3 / 2"
  by (simp add: real_eval)

lemma c_int_small: "c_int 2" "c_int 12" "c_int 0" "c_int 1"
  by (simp_all add: c_int_def INT_MIN_def INT_MAX_def)

lemma corner_steps:
  "julia_point_steps real_arith 2 2 (- (3 / 2)) (3 / 2) (- (3 / 2)) (3 / 2) 1 1 = Inr (0, 3)"
  by (simp add: julia_point_steps_valid c_int_small coord_corner corner_escapes)

lemma iterate_Suc: "iterate F c a (Suc n) = quadratic_map F c (iterate F c a n)"
  by (simp add: iterate_def)

lemma iterate_0: "iterate F c a 0 = a"
  by (simp add: iterate_def)

lemma corner_iterates:
  "iterate real_arith (- (4 / 5), 39 / 250) (3 / 2, 3 / 2) 1 = (- (4 / 5), 582 / 125)"
  "iterate real_arith (- (4 / 5), 39 / 250) (3 / 2, 3 / 2) 2
     = (- (341224 / 15625), - (9117 / 1250))"
  by (simp_all add: eval_nat_numeral iterate_Suc iterate_0 quadratic_map_def real_arith_def)

text \<open>
  The pixel \<open>(1, 1)\<close> of the 2 by 2 grid over \<open>[-1.5, 1.5]\<^sup>2\<close>, in exact arithmetic: it
  maps to \<open>(1.5, 1.5)\<close>; the iterates are \<open>(-0.8, 4.656)\<close>, then
  \<open>(-21.838336, -7.2936)\<close>, and the third is the first over the threshold.
\<close>

theorem julia_point_first_escape_witness:
  "c_int 2 \<and> (1::int) < 2 \<and> (0::int) \<le> 1
   \<and> julia_point_steps real_arith 2 2 (- (3 / 2)) (3 / 2) (- (3 / 2)) (3 / 2) 1 1 = Inr (0, 3)
   \<and> julia_point real_arith 2 2 (- (3 / 2)) (3 / 2) (- (3 / 2)) (3 / 2) 1 1 = Inr 0
   \<and> coord real_arith 2 (- (3 / 2)) (3 / 2) 1 = 3 / 2
   \<and> iterate real_arith (- (4 / 5), 39 / 250) (3 / 2, 3 / 2) 1 = (- (4 / 5), 582 / 125)
   \<and> iterate real_arith (- (4 / 5), 39 / 250) (3 / 2, 3 / 2) 2
       = (- (341224 / 15625), - (9117 / 1250))
   \<and> \<not> exceeds real_arith (iterate real_arith (- (4 / 5), 39 / 250) (3 / 2, 3 / 2) 1)
   \<and> \<not> exceeds real_arith (iterate real_arith (- (4 / 5), 39 / 250) (3 / 2, 3 / 2) 2)
   \<and> exceeds real_arith (iterate real_arith (- (4 / 5), 39 / 250) (3 / 2, 3 / 2) 3)"
proof -
  have c: "float_of_decimal real_arith (- (8 / 10)) = - (4 / 5)"
    "float_of_decimal real_arith (156 / 1000) = 39 / 250"
    by (simp_all add: real_arith_def of_rat_divide of_rat_minus)
  from julia_point_first_escape [of 2 2 1 1 real_arith "- (3 / 2)" "3 / 2" "- (3 / 2)" "3 / 2"]
  obtain r n where
    s: "julia_point_steps real_arith 2 2 (- (3 / 2)) (3 / 2) (- (3 / 2)) (3 / 2) 1 1 = Inr (r, n)"
    and p: "julia_point real_arith 2 2 (- (3 / 2)) (3 / 2) (- (3 / 2)) (3 / 2) 1 1 = Inr r"
    and b: "\<forall>m. 1 \<le> m \<and> m < n \<longrightarrow>
        \<not> exceeds real_arith (iterate real_arith (- (4 / 5), 39 / 250) (3 / 2, 3 / 2) m)"
    and e: "r = 0 \<longleftrightarrow>
        exceeds real_arith (iterate real_arith (- (4 / 5), 39 / 250) (3 / 2, 3 / 2) n)"
    unfolding coord_corner c using c_int_small by auto
  from s have rn: "r = 0" "n = 3" by (simp_all add: corner_steps)
  from b rn have "\<not> exceeds real_arith (iterate real_arith (- (4 / 5), 39 / 250) (3 / 2, 3 / 2) 2)"
    "\<not> exceeds real_arith (iterate real_arith (- (4 / 5), 39 / 250) (3 / 2, 3 / 2) 1)"
    by simp_all
  with s p e rn c_int_small coord_corner corner_iterates show ?thesis by simp
qed


section \<open>The renderer\<close>

lemma julia_point_valid:
  assumes "c_int w" "c_int h" "0 \<le> i" "i < w" "0 \<le> j" "j < h"
  shows "julia_point F w h xl xr yb yt i j = Inr (pixel_value F w h xl xr yb yt i j)"
  using assms by (simp add: julia_point_def julia_point_steps_valid pixel_value_def)

lemma offset_bound:
  fixes w h i j :: int
  assumes "0 \<le> i" "i < w" "0 \<le> j" "j < h"
  shows "0 \<le> j * w" "j * w + i + 1 \<le> w * h"
proof -
  from assms show "0 \<le> j * w" by simp
  have "j * w + i + 1 \<le> j * w + w" using assms by simp
  also have "\<dots> = (j + 1) * w" by (simp add: algebra_simps)
  also have "\<dots> \<le> h * w" using assms by (intro mult_right_mono) auto
  finally show "j * w + i + 1 \<le> w * h" by (simp add: mult.commute)
qed

lemma store_ok:
  assumes "block m = Some b" "0 \<le> k" "k < int (length b)"
  shows "store m k v = Inr \<lparr> block = Some (b[nat k := v]), stores = stores m @ [(k, v)] \<rparr>"
  using assms by (simp add: store_def)

lemma ck_ok: "c_int v \<Longrightarrow> ck v = Inr v"
  by (simp add: ck_def)

lemma c_int_between: "0 \<le> v \<Longrightarrow> v \<le> n \<Longrightarrow> c_int n \<Longrightarrow> c_int v"
  by (simp add: c_int_def INT_MIN_def)

lemma stores3:
  assumes m: "block m = Some b" and k: "0 \<le> k" "k + 2 < int (length b)"
  shows "(case store m k v of Inl e \<Rightarrow> Inl e | Inr m1 \<Rightarrow>
          (case ck (k + 1) of Inl e \<Rightarrow> Inl e | Inr k1 \<Rightarrow>
          (case store m1 k1 v of Inl e \<Rightarrow> Inl e | Inr m2 \<Rightarrow>
          (case ck (k + 2) of Inl e \<Rightarrow> Inl e | Inr k2 \<Rightarrow> store m2 k2 u)))) =
         (if c_int (k + 2) then
            Inr \<lparr> block = Some (b[nat k := v, nat (k + 1) := v, nat (k + 2) := u]),
                  stores = stores m @ [(k, v), (k + 1, v), (k + 2, u)] \<rparr>
          else Inl Signed_Overflow)"
proof -
  let ?m1 = "\<lparr> block = Some (b[nat k := v]), stores = stores m @ [(k, v)] \<rparr>"
  let ?m2 = "\<lparr> block = Some (b[nat k := v, nat (k + 1) := v]),
               stores = stores m @ [(k, v), (k + 1, v)] \<rparr>"
  have s1: "store m k v = Inr ?m1"
    using m k by (intro store_ok) auto
  have s2: "store ?m1 (k + 1) v = Inr ?m2"
    using store_ok [of ?m1 "b[nat k := v]" "k + 1" v] k by simp
  have s3: "store ?m2 (k + 2) u =
      Inr \<lparr> block = Some (b[nat k := v, nat (k + 1) := v, nat (k + 2) := u]),
            stores = stores m @ [(k, v), (k + 1, v), (k + 2, u)] \<rparr>"
    using store_ok [of ?m2 "b[nat k := v, nat (k + 1) := v]" "k + 2" u] k by simp
  have c: "c_int (k + 2) \<Longrightarrow> c_int (k + 1)"
    using k by (simp add: c_int_def INT_MIN_def)
  show ?thesis
    using c by (simp add: s1 s2 s3 ck_def c_int_def INT_MIN_def)
qed


lemma update3:
  assumes "length P = c" "3 \<le> length R"
  shows "(P @ R)[c := a, Suc c := b, Suc (Suc c) := d] = P @ [a, b, d] @ drop 3 R"
proof -
  from assms(2) obtain r0 r1 r2 R' where R: "R = r0 # r1 # r2 # R'"
    by (cases R; cases "tl R"; cases "tl (tl R)") auto
  show ?thesis using assms(1) by (simp add: R list_update_append)
qed

lemma upt_add3: "[0..<c + 3] = [0..<c] @ [c, Suc c, Suc (Suc c)]"
  by (simp add: numeral_3_eq_3)

lemma expected_byte_pixel:
  assumes "0 \<le> i" "i < w" "0 \<le> j" "c = nat ((j * w + i) * 3)"
  shows "expected_byte F w h xl xr yb yt c = colour (pixel_value F w h xl xr yb yt i j)"
    and "expected_byte F w h xl xr yb yt (Suc c) = colour (pixel_value F w h xl xr yb yt i j)"
    and "expected_byte F w h xl xr yb yt (Suc (Suc c)) = 255"
proof -
  define p where "p = nat (j * w + i)"
  have p: "int p = j * w + i" using assms by (simp add: p_def)
  have c: "c = 3 * p" using assms by (simp add: p_def nat_mult_distrib mult.commute)
  have m: "int p mod w = i" "int p div w = j" using assms by (simp_all add: p)
  have d: "c div 3 = p" "c mod 3 = 0" "Suc c div 3 = p" "Suc c mod 3 = 1"
    "Suc (Suc c) mod 3 = 2"
    by (simp_all add: c mod_Suc)
  show "expected_byte F w h xl xr yb yt c = colour (pixel_value F w h xl xr yb yt i j)"
    by (simp add: expected_byte_def d m)
  show "expected_byte F w h xl xr yb yt (Suc c) = colour (pixel_value F w h xl xr yb yt i j)"
    by (simp add: expected_byte_def d m)
  show "expected_byte F w h xl xr yb yt (Suc (Suc c)) = 255"
    by (simp add: expected_byte_def d)
qed


lemma ck_between: "0 \<le> v \<Longrightarrow> v \<le> n \<Longrightarrow> c_int n \<Longrightarrow> ck v = Inr v"
  by (simp add: ck_def c_int_def INT_MIN_def)

lemma render_pixel_filled:
  fixes F :: "'f arith"
  assumes wh: "c_int w" "c_int h" and ij: "0 \<le> i" "i < w" "0 \<le> j" "j < h"
    and n: "c_int (w * h * 3)" and len: "int (length init) = w * h * 3"
    and c: "c = nat ((j * w + i) * 3)"
  shows "render_pixel F w h xl xr yb yt j i (filled (expected_byte F w h xl xr yb yt) init c) =
           Inr (filled (expected_byte F w h xl xr yb yt) init (c + 3))"
proof -
  let ?E = "expected_byte F w h xl xr yb yt"
  let ?v = "colour (pixel_value F w h xl xr yb yt i j)"
  define q where "q = j * w + i"
  define N where "N = w * h"
  from offset_bound [OF ij] have b0: "0 \<le> j * w" and b1: "q + 1 \<le> N"
    by (simp_all add: q_def N_def)
  have q0: "0 \<le> q" using b0 ij by (simp add: q_def)
  have nN: "c_int (N * 3)" and lenN: "int (length init) = N * 3"
    using n len by (simp_all add: N_def)
  have cq: "int c = q * 3" using c q0 by (simp add: q_def)
  have c3: "c + 3 \<le> length init" using cq lenN b1 by linarith
  have jw: "j * w \<le> N * 3" using b0 b1 ij unfolding q_def by linarith
  have k1: "ck (j * w) = Inr (j * w)"
    using b0 jw nN by (rule ck_between)
  have k2: "ck (j * w + i) = Inr q"
    unfolding q_def [symmetric] using q0 b1 nN by (intro ck_between [of _ "N * 3"]) auto
  have k3: "ck (q * 3) = Inr (q * 3)"
    using q0 b1 nN by (intro ck_between [of _ "N * 3"]) auto
  have k5: "c_int (q * 3 + 2)"
    using q0 b1 nN by (intro c_int_between [of "q * 3 + 2" "N * 3"]) auto
  let ?b = "map ?E [0..<c] @ drop c init"
  have blk: "block (filled ?E init c) = Some ?b"
    and sto: "stores (filled ?E init c) = map (\<lambda>p. (int p, ?E p)) [0..<c]"
    by (simp_all add: filled_def)
  have lb: "q * 3 + 2 < int (length ?b)" using c3 cq by simp
  have q30: "0 \<le> q * 3" using q0 by simp
  have nats: "nat (q * 3) = c" "nat (q * 3 + 1) = Suc c" "nat (q * 3 + 2) = Suc (Suc c)"
    using cq by linarith+
  have ints: "q * 3 = int c" "q * 3 + 1 = int (Suc c)" "q * 3 + 2 = int (Suc (Suc c))"
    using cq by simp_all
  have ev: "?E c = ?v" "?E (Suc c) = ?v" "?E (Suc (Suc c)) = 255"
    by (rule expected_byte_pixel [OF ij(1,2,3) c])+
  have upd: "?b[c := ?v, Suc c := ?v, Suc (Suc c) := 255] =
      map ?E [0..<c + 3] @ drop (c + 3) init"
    using c3 by (subst update3) (simp_all add: upt_add3 ev add.commute del: upt_Suc)
  have "render_pixel F w h xl xr yb yt j i (filled ?E init c) =
      Inr \<lparr> block = Some (?b[nat (q * 3) := ?v, nat (q * 3 + 1) := ?v, nat (q * 3 + 2) := 255]),
            stores = stores (filled ?E init c) @ [(q * 3, ?v), (q * 3 + 1, ?v), (q * 3 + 2, 255)] \<rparr>"
    unfolding render_pixel_def
    by (simp only: julia_point_valid [OF wh ij] k1 k2 k3 sum.case
        stores3 [OF blk q30 lb] k5 if_True)
  also have "\<dots> = Inr (filled ?E init (c + 3))"
    unfolding nats upd sto
    by (simp add: filled_def ints upt_add3 ev del: of_nat_Suc upt_Suc)
  finally show ?thesis .
qed


lemma fill_row_unfold:
  "fill_row F w h xl xr yb yt j i m =
     (if i < w then
        (case render_pixel F w h xl xr yb yt j i m of
           Inl e \<Rightarrow> Inl e
         | Inr m' \<Rightarrow> fill_row F w h xl xr yb yt j (i + 1) m')
      else Inr m)"
  by (rule fill_row.simps)

lemma fill_rows_unfold:
  "fill_rows F w h xl xr yb yt j m =
     (if j < h then
        (case fill_row F w h xl xr yb yt j 0 m of
           Inl e \<Rightarrow> Inl e
         | Inr m' \<Rightarrow> fill_rows F w h xl xr yb yt (j + 1) m')
      else Inr m)"
  by (rule fill_rows.simps)

lemma fill_row_filled:
  fixes F :: "'f arith"
  assumes wh: "c_int w" "c_int h" and j: "0 \<le> j" "j < h"
    and n: "c_int (w * h * 3)" and len: "int (length init) = w * h * 3"
  shows "0 \<le> i \<Longrightarrow> i \<le> w \<Longrightarrow> c = nat ((j * w + i) * 3) \<Longrightarrow>
     fill_row F w h xl xr yb yt j i (filled (expected_byte F w h xl xr yb yt) init c) =
       Inr (filled (expected_byte F w h xl xr yb yt) init (nat ((j * w + w) * 3)))"
proof (induction "nat (w - i)" arbitrary: i c)
  case 0
  then have "i = w" by simp
  with 0 show ?case by (subst fill_row_unfold) simp
next
  case (Suc d)
  then have lt: "i < w" by simp
  have q0: "0 \<le> j * w + i" using j Suc.prems lt by simp
  have c': "c + 3 = nat ((j * w + (i + 1)) * 3)"
    using Suc.prems(3) q0 by (simp add: algebra_simps nat_add_distrib)
  have d: "d = nat (w - (i + 1))" using Suc.hyps(2) by simp
  have ih: "fill_row F w h xl xr yb yt j (i + 1)
      (filled (expected_byte F w h xl xr yb yt) init (c + 3)) =
       Inr (filled (expected_byte F w h xl xr yb yt) init (nat ((j * w + w) * 3)))"
    using Suc.prems lt by (intro Suc.hyps(1) [OF d _ _ c']) auto
  show ?case
    by (subst fill_row_unfold)
       (simp only: lt if_True render_pixel_filled [OF wh Suc.prems(1) lt j n len Suc.prems(3)]
          sum.case ih)
qed

lemma fill_rows_filled:
  fixes F :: "'f arith"
  assumes wh: "c_int w" "c_int h" and w0: "0 \<le> w"
    and n: "c_int (w * h * 3)" and len: "int (length init) = w * h * 3"
  shows "0 \<le> j \<Longrightarrow> j \<le> h \<Longrightarrow> c = nat (j * w * 3) \<Longrightarrow>
     fill_rows F w h xl xr yb yt j (filled (expected_byte F w h xl xr yb yt) init c) =
       Inr (filled (expected_byte F w h xl xr yb yt) init (nat (w * h * 3)))"
proof (induction "nat (h - j)" arbitrary: j c)
  case 0
  then have "j = h" by simp
  with 0 show ?case by (subst fill_rows_unfold) (simp add: mult.commute)
next
  case (Suc d)
  then have lt: "j < h" by simp
  have c0: "c = nat ((j * w + 0) * 3)" using Suc.prems by simp
  have row: "fill_row F w h xl xr yb yt j 0 (filled (expected_byte F w h xl xr yb yt) init c) =
       Inr (filled (expected_byte F w h xl xr yb yt) init (nat ((j * w + w) * 3)))"
    using w0 by (intro fill_row_filled [OF wh Suc.prems(1) lt n len _ _ c0]) auto
  have c': "nat ((j * w + w) * 3) = nat ((j + 1) * w * 3)" by (simp add: algebra_simps)
  have d: "d = nat (h - (j + 1))" using Suc.hyps(2) by simp
  have ih: "fill_rows F w h xl xr yb yt (j + 1)
      (filled (expected_byte F w h xl xr yb yt) init (nat ((j * w + w) * 3))) =
       Inr (filled (expected_byte F w h xl xr yb yt) init (nat (w * h * 3)))"
    using Suc.prems lt by (intro Suc.hyps(1) [OF d _ _ c']) auto
  show ?case
    by (subst fill_rows_unfold) (simp only: lt if_True row sum.case ih)
qed

lemma size_t_int: "0 \<le> n \<Longrightarrow> c_int n \<Longrightarrow> size_t n = nat n"
  by (simp add: size_t_def c_int_def INT_MAX_def)

lemma filled_start: "filled E init 0 = \<lparr> block = Some init, stores = [] \<rparr>"
  by (simp add: filled_def)

lemma filled_all:
  "filled E init (length init) =
     \<lparr> block = Some (map E [0..<length init]),
       stores = map (\<lambda>p. (int p, E p)) [0..<length init] \<rparr>"
  by (simp add: filled_def)

lemma julia_rgb_heap_filled:
  fixes F :: "'f arith"
  assumes wh: "c_int w" "c_int h" and w0: "0 \<le> w" and h0: "0 \<le> h"
    and n: "c_int (w * h * 3)"
    and a: "malloc (nat (w * h * 3)) = Some init" and len: "length init = nat (w * h * 3)"
  shows "julia_rgb_heap F malloc w h xl xr yb yt =
           Inr \<lparr> block = Some (map (expected_byte F w h xl xr yb yt) [0..<nat (w * h * 3)]),
                 stores = map (\<lambda>p. (int p, expected_byte F w h xl xr yb yt p))
                            [0..<nat (w * h * 3)] \<rparr>"
proof -
  have p: "0 \<le> w * h" using w0 h0 by simp
  have p3: "0 \<le> w * h * 3" "w * h \<le> w * h * 3" using p by linarith+
  have c1: "ck (w * h) = Inr (w * h)"
    using p p3(2) n by (rule ck_between)
  have c2: "ck (w * h * 3) = Inr (w * h * 3)" using n by (rule ck_ok)
  have sz: "size_t (w * h * 3) = nat (w * h * 3)" using p3(1) n by (rule size_t_int)
  have len': "int (length init) = w * h * 3" using len p3(1) by simp
  have "julia_rgb_heap F malloc w h xl xr yb yt =
      fill_rows F w h xl xr yb yt 0 (filled (expected_byte F w h xl xr yb yt) init 0)"
    by (simp add: julia_rgb_heap_def c1 c2 sz a filled_start)
  also have "\<dots> = Inr (filled (expected_byte F w h xl xr yb yt) init (nat (w * h * 3)))"
    using h0 by (intro fill_rows_filled [OF wh w0 n len']) auto
  finally show ?thesis using filled_all [of _ init] len by simp
qed


lemma pixel_value_01: "pixel_value F w h xl xr yb yt i j = 0 \<or> pixel_value F w h xl xr yb yt i j = 1"
  using julia_loop_bound [of 0 F "(coord F w xl xr i, coord F h yb yt j)"]
  by (simp add: pixel_value_def)

lemma colour_01: "colour 0 = 255" "colour 1 = 0"
  by (simp_all add: colour_def)

lemma julia_rgb_image:
  fixes F :: "'f arith"
  assumes "c_int w" "c_int h" "0 \<le> w" "0 \<le> h" "c_int (w * h * 3)"
    and "malloc (nat (w * h * 3)) = Some init" "length init = nat (w * h * 3)"
  shows "julia_rgb F malloc w h xl xr yb yt = Inr (Some (image F w h xl xr yb yt))"
  by (simp add: julia_rgb_def image_def
      julia_rgb_heap_filled [where malloc = malloc and init = init, OF assms])

lemma image_pixel:
  fixes F :: "'f arith"
  assumes ij: "0 \<le> i" "i < w" "0 \<le> j" "j < h"
  shows "image F w h xl xr yb yt ! nat (offset w i j) = colour (pixel_value F w h xl xr yb yt i j)"
    and "image F w h xl xr yb yt ! nat (offset w i j + 1) = colour (pixel_value F w h xl xr yb yt i j)"
    and "image F w h xl xr yb yt ! nat (offset w i j + 2) = 255"
proof -
  define c where "c = nat ((j * w + i) * 3)"
  define q where "q = j * w + i"
  define N where "N = w * h"
  from offset_bound [OF ij] have b0: "0 \<le> j * w" and b1: "q + 1 \<le> N"
    by (simp_all add: q_def N_def)
  have q0: "0 \<le> q" using b0 ij by (simp add: q_def)
  have cq: "c = nat (q * 3)" by (simp add: c_def q_def)
  have lt: "Suc (Suc c) < nat (N * 3)" using b1 q0 unfolding cq by linarith
  have n: "nat (offset w i j) = c" "nat (offset w i j + 1) = Suc c"
    "nat (offset w i j + 2) = Suc (Suc c)"
    using q0 unfolding cq offset_def q_def [symmetric] by linarith+
  have e: "expected_byte F w h xl xr yb yt c = colour (pixel_value F w h xl xr yb yt i j)"
    "expected_byte F w h xl xr yb yt (Suc c) = colour (pixel_value F w h xl xr yb yt i j)"
    "expected_byte F w h xl xr yb yt (Suc (Suc c)) = 255"
    by (rule expected_byte_pixel [OF ij(1,2,3) c_def])+
  show "image F w h xl xr yb yt ! nat (offset w i j) = colour (pixel_value F w h xl xr yb yt i j)"
    using lt by (simp add: image_def n e N_def)
  show "image F w h xl xr yb yt ! nat (offset w i j + 1) = colour (pixel_value F w h xl xr yb yt i j)"
    using lt by (simp add: image_def n e N_def del: upt_Suc)
  show "image F w h xl xr yb yt ! nat (offset w i j + 2) = 255"
    using lt by (simp add: image_def n e N_def del: upt_Suc)
qed

text \<open>
  Claim C2, as amended. For a grid with \<open>W > 1\<close>, \<open>H > 1\<close> whose byte count \<open>3 W H\<close>
  is an \<^verbatim>\<open>int\<close>, and an allocation that succeeds, \<^verbatim>\<open>julia_rgb\<close> returns a buffer of
  \<open>3 W H\<close> bytes in which, for every pixel \<open>(i, j)\<close> and \<open>k = (j W + i) 3\<close>, bytes \<open>k\<close>
  and \<open>k + 1\<close> are 255 if \<^verbatim>\<open>julia_point\<close> returns 0 (escaped) and 0 if it returns 1 (in
  the set), and byte \<open>k + 2\<close> is 255.
\<close>

theorem julia_rgb_buffer:
  assumes "c_int w" "c_int h" "1 < w" "1 < h" "c_int (w * h * 3)"
    and "malloc (nat (w * h * 3)) = Some init" "length init = nat (w * h * 3)"
  shows "\<exists>buf. julia_rgb F malloc w h xl xr yb yt = Inr (Some buf)
     \<and> int (length buf) = 3 * w * h
     \<and> (\<forall>i j. 0 \<le> i \<and> i < w \<and> 0 \<le> j \<and> j < h \<longrightarrow>
          (\<exists>v. julia_point F w h xl xr yb yt i j = Inr v \<and> (v = 0 \<or> v = 1)
             \<and> buf ! nat (offset w i j) = (if v = 0 then 255 else 0)
             \<and> buf ! nat (offset w i j + 1) = (if v = 0 then 255 else 0)
             \<and> buf ! nat (offset w i j + 2) = 255))"
proof -
  let ?img = "image F w h xl xr yb yt"
  have r: "julia_rgb F malloc w h xl xr yb yt = Inr (Some ?img)"
    using assms by (intro julia_rgb_image) auto
  have l: "int (length ?img) = 3 * w * h" using assms by (simp add: image_def)
  have px: "\<exists>v. julia_point F w h xl xr yb yt i j = Inr v \<and> (v = 0 \<or> v = 1)
             \<and> ?img ! nat (offset w i j) = (if v = 0 then 255 else 0)
             \<and> ?img ! nat (offset w i j + 1) = (if v = 0 then 255 else 0)
             \<and> ?img ! nat (offset w i j + 2) = 255"
    if ij: "0 \<le> i" "i < w" "0 \<le> j" "j < h" for i j
  proof -
    let ?v = "pixel_value F w h xl xr yb yt i j"
    have p: "julia_point F w h xl xr yb yt i j = Inr ?v"
      using assms(1,2) ij by (rule julia_point_valid)
    have c: "colour ?v = (if ?v = 0 then 255 else 0)"
      using pixel_value_01 [of F w h xl xr yb yt i j] by (auto simp: colour_01)
    show ?thesis
      using p pixel_value_01 [of F w h xl xr yb yt i j] image_pixel [OF ij, where F = F and xl = xl and xr = xr and yb = yb and yt = yt] c
      by simp
  qed
  from r l px show ?thesis by blast
qed

text \<open>
  For \<open>W = H = 30000\<close> the size \<^verbatim>\<open>w * h * 3\<close> is 2700000000, beyond \<^verbatim>\<open>INT_MAX\<close>: the
  multiplication overflows before anything is allocated, and no buffer is returned.
\<close>

theorem julia_rgb_buffer_overflow:
  "julia_rgb real_arith malloc_zeroed 30000 30000 (- (3 / 2)) (3 / 2) (- (3 / 2)) (3 / 2)
     = Inl Signed_Overflow"
  by (simp add: julia_rgb_def julia_rgb_heap_def ck_def c_int_def INT_MIN_def INT_MAX_def)


lemma corner_point:
  "julia_point real_arith 2 2 (- (3 / 2)) (3 / 2) (- (3 / 2)) (3 / 2) 1 1 = Inr 0"
  by (simp add: julia_point_def corner_steps)

lemma malloc_zeroed_12: "malloc_zeroed (nat (2 * 2 * 3)) = Some (replicate 12 0)"
  by (simp add: malloc_zeroed_def)

theorem julia_rgb_buffer_witness:
  "c_int 2 \<and> (1::int) < 2 \<and> c_int (2 * 2 * 3)
   \<and> malloc_zeroed (nat (2 * 2 * 3)) = Some (replicate 12 0)
   \<and> (\<exists>buf. julia_rgb real_arith malloc_zeroed 2 2 (- (3 / 2)) (3 / 2) (- (3 / 2)) (3 / 2)
               = Inr (Some buf)
        \<and> int (length buf) = 12 \<and> buf ! 9 = 255 \<and> buf ! 10 = 255 \<and> buf ! 11 = 255)"
proof -
  from julia_rgb_buffer [of 2 2 malloc_zeroed "replicate 12 0" real_arith
      "- (3 / 2)" "3 / 2" "- (3 / 2)" "3 / 2"]
  obtain buf where
    r: "julia_rgb real_arith malloc_zeroed 2 2 (- (3 / 2)) (3 / 2) (- (3 / 2)) (3 / 2)
          = Inr (Some buf)"
    and l: "int (length buf) = 12"
    and px: "\<forall>i j. 0 \<le> i \<and> i < 2 \<and> 0 \<le> j \<and> j < 2 \<longrightarrow>
          (\<exists>v. julia_point real_arith 2 2 (- (3 / 2)) (3 / 2) (- (3 / 2)) (3 / 2) i j = Inr v
             \<and> (v = 0 \<or> v = 1)
             \<and> buf ! nat (offset 2 i j) = (if v = 0 then 255 else 0)
             \<and> buf ! nat (offset 2 i j + 1) = (if v = 0 then 255 else 0)
             \<and> buf ! nat (offset 2 i j + 2) = 255)"
    using c_int_small malloc_zeroed_12 by auto
  from px [rule_format, of 1 1]
  have "buf ! 9 = 255 \<and> buf ! 10 = 255 \<and> buf ! 11 = 255"
    by (simp add: corner_point offset_def)
  with r l c_int_small malloc_zeroed_12 show ?thesis by simp
qed








section \<open>The order of the stores, and a failed allocation\<close>

lemma replay_Cons: "replay (x # xs) b = replay xs (b[nat (fst x) := snd x])"
  by (simp add: replay_def)

lemma length_replay: "length (replay ss b) = length b"
  by (induction ss arbitrary: b) (simp_all add: replay_Cons, simp add: replay_def)

lemma replay_nth:
  assumes "\<forall>kv \<in> set ss. 0 \<le> fst kv \<and> snd kv = g (fst kv)" "p < length b"
  shows "replay ss b ! p = (if int p \<in> fst ` set ss then g (int p) else b ! p)"
  using assms
proof (induction ss arbitrary: b)
  case Nil
  then show ?case by (simp add: replay_def)
next
  case (Cons x xs)
  let ?b = "b[nat (fst x) := snd x]"
  have x: "0 \<le> fst x" "snd x = g (fst x)" using Cons.prems by simp_all
  have ih: "replay xs ?b ! p = (if int p \<in> fst ` set xs then g (int p) else ?b ! p)"
    using Cons.prems by (intro Cons.IH) simp_all
  have n: "nat (fst x) = p \<longleftrightarrow> fst x = int p" using x(1) by auto
  have "?b ! p = (if fst x = int p then g (int p) else b ! p)"
    using Cons.prems(2) x(2) by (auto simp: nth_list_update n)
  with ih show ?case by (auto simp: replay_Cons)
qed

lemma replay_permutation:
  assumes "mset ss = mset (map (\<lambda>p. (int p, E p)) [0..<N])" "length b = N"
  shows "replay ss b = map E [0..<N]"
proof (rule nth_equalityI)
  show "length (replay ss b) = length (map E [0..<N])"
    using assms by (simp add: length_replay)
next
  fix p assume "p < length (replay ss b)"
  then have p: "p < N" using assms by (simp add: length_replay)
  from assms(1) have s: "set ss = (\<lambda>p. (int p, E p)) ` {0..<N}"
    using mset_eq_setD [OF assms(1)] by simp
  have a: "\<forall>kv \<in> set ss. 0 \<le> fst kv \<and> snd kv = (\<lambda>k. E (nat k)) (fst kv)"
    unfolding s by auto
  have m: "int p \<in> fst ` set ss" unfolding s using p by force
  from replay_nth [OF a, of p b] p assms(2) m
  show "replay ss b ! p = map E [0..<N] ! p" by simp
qed

lemma render_pixel_block:
  fixes F :: "'f arith"
  assumes wh: "c_int w" "c_int h" and ij: "0 \<le> i" "i < w" "0 \<le> j" "j < h"
    and n: "c_int (w * h * 3)" and blk: "block m = Some b"
    and len: "int (length b) = w * h * 3"
    and c: "c = nat ((j * w + i) * 3)"
  shows "\<exists>m'. render_pixel F w h xl xr yb yt j i m = Inr m'
     \<and> block m' = Some (b[c := colour (pixel_value F w h xl xr yb yt i j),
                          Suc c := colour (pixel_value F w h xl xr yb yt i j),
                          Suc (Suc c) := 255])"
proof -
  let ?v = "colour (pixel_value F w h xl xr yb yt i j)"
  define q where "q = j * w + i"
  define N where "N = w * h"
  from offset_bound [OF ij] have b0: "0 \<le> j * w" and b1: "q + 1 \<le> N"
    by (simp_all add: q_def N_def)
  have q0: "0 \<le> q" using b0 ij by (simp add: q_def)
  have nN: "c_int (N * 3)" and lenN: "int (length b) = N * 3"
    using n len by (simp_all add: N_def)
  have cq: "int c = q * 3" using c q0 by (simp add: q_def)
  have jw: "j * w \<le> N * 3" using b0 b1 ij unfolding q_def by linarith
  have k1: "ck (j * w) = Inr (j * w)"
    using b0 jw nN by (rule ck_between)
  have k2: "ck (j * w + i) = Inr q"
    unfolding q_def [symmetric] using q0 b1 nN by (intro ck_between [of _ "N * 3"]) auto
  have k3: "ck (q * 3) = Inr (q * 3)"
    using q0 b1 nN by (intro ck_between [of _ "N * 3"]) auto
  have k5: "c_int (q * 3 + 2)"
    using q0 b1 nN by (intro c_int_between [of "q * 3 + 2" "N * 3"]) auto
  have lb: "q * 3 + 2 < int (length b)" using lenN b1 by linarith
  have q30: "0 \<le> q * 3" using q0 by simp
  have nats: "nat (q * 3) = c" "nat (q * 3 + 1) = Suc c" "nat (q * 3 + 2) = Suc (Suc c)"
    using cq by linarith+
  have "render_pixel F w h xl xr yb yt j i m =
      Inr \<lparr> block = Some (b[nat (q * 3) := ?v, nat (q * 3 + 1) := ?v, nat (q * 3 + 2) := 255]),
            stores = stores m @ [(q * 3, ?v), (q * 3 + 1, ?v), (q * 3 + 2, 255)] \<rparr>"
    unfolding render_pixel_def
    by (simp only: julia_point_valid [OF wh ij] k1 k2 k3 sum.case
        stores3 [OF blk q30 lb] k5 if_True)
  then show ?thesis unfolding nats by simp
qed

lemma pixel_of_position:
  fixes w i j :: int
  assumes "0 \<le> i" "i < w" "0 \<le> j"
  shows "(int t mod w = i \<and> int t div w = j) \<longleftrightarrow> t = nat (j * w + i)"
proof
  assume a: "int t mod w = i \<and> int t div w = j"
  have "int t = int t div w * w + int t mod w" by simp
  with a have "int t = j * w + i" by simp
  then show "t = nat (j * w + i)" by linarith
next
  assume "t = nat (j * w + i)"
  moreover have "0 \<le> j * w + i" using assms by simp
  ultimately have "int t = j * w + i" by simp
  then show "int t mod w = i \<and> int t div w = j" using assms by simp
qed

lemma update3_nth:
  assumes "c = 3 * t" "Suc (Suc c) < length b" "q < length b"
  shows "b[c := v, Suc c := v, Suc (Suc c) := u] ! q =
     (if q div 3 = t then (if q mod 3 = 2 then u else v) else b ! q)"
proof (cases "q div 3 = t")
  case True
  then consider "q = c" | "q = Suc c" | "q = Suc (Suc c)" using assms(1) by linarith
  then show ?thesis using assms True by cases (simp_all add: mod_Suc)
next
  case False
  then have "q \<noteq> c" "q \<noteq> Suc c" "q \<noteq> Suc (Suc c)" using assms(1) by auto
  with False show ?thesis by simp
qed

lemma render_pixels_any_order:
  fixes F :: "'f arith"
  assumes wh: "c_int w" "c_int h" and n: "c_int (w * h * 3)"
  shows "\<forall>p \<in> set ps. 0 \<le> fst p \<and> fst p < w \<and> 0 \<le> snd p \<and> snd p < h \<Longrightarrow>
     block m = Some b \<Longrightarrow> int (length b) = w * h * 3 \<Longrightarrow>
     \<exists>m' b'. render_pixels F w h xl xr yb yt ps m = Inr m' \<and> block m' = Some b'
       \<and> length b' = length b
       \<and> (\<forall>q < length b. b' ! q =
            (if (int (q div 3) mod w, int (q div 3) div w) \<in> set ps
             then expected_byte F w h xl xr yb yt q else b ! q))"
proof (induction ps arbitrary: m b)
  case Nil
  then show ?case by simp
next
  case (Cons p ps)
  obtain i j where p: "p = (i, j)" by (cases p)
  have ij: "0 \<le> i" "i < w" "0 \<le> j" "j < h" using Cons.prems(1) p by auto
  let ?v = "colour (pixel_value F w h xl xr yb yt i j)"
  define t where "t = nat (j * w + i)"
  define c where "c = nat ((j * w + i) * 3)"
  have q0: "0 \<le> j * w + i" using ij by simp
  have ct: "c = 3 * t" using q0 by (simp add: c_def t_def nat_mult_distrib mult.commute)
  let ?b1 = "b[c := ?v, Suc c := ?v, Suc (Suc c) := 255]"
  from render_pixel_block [OF wh ij n Cons.prems(2,3) c_def,
      where F = F and xl = xl and xr = xr and yb = yb and yt = yt]
  obtain m1 where m1: "render_pixel F w h xl xr yb yt j i m = Inr m1" "block m1 = Some ?b1"
    by blast
  have l1: "int (length ?b1) = w * h * 3" using Cons.prems(3) by simp
  have rest: "\<forall>p \<in> set ps. 0 \<le> fst p \<and> fst p < w \<and> 0 \<le> snd p \<and> snd p < h"
    using Cons.prems(1) by simp
  from Cons.IH [OF rest m1(2) l1]
  obtain m' b' where r: "render_pixels F w h xl xr yb yt ps m1 = Inr m'" "block m' = Some b'"
    "length b' = length ?b1"
    "\<forall>q < length ?b1. b' ! q =
        (if (int (q div 3) mod w, int (q div 3) div w) \<in> set ps
         then expected_byte F w h xl xr yb yt q else ?b1 ! q)"
    by blast
  define Q where "Q = j * w + i"
  define N where "N = w * h"
  from offset_bound [OF ij] have "Q + 1 \<le> N" by (simp add: Q_def N_def)
  moreover have "int (length b) = N * 3" using Cons.prems(3) by (simp add: N_def)
  moreover have "0 \<le> Q" using q0 by (simp add: Q_def)
  moreover have "c = nat (Q * 3)" by (simp add: c_def Q_def)
  ultimately have cl: "Suc (Suc c) < length b" by linarith
  have nth: "b' ! q =
      (if (int (q div 3) mod w, int (q div 3) div w) \<in> set (p # ps)
       then expected_byte F w h xl xr yb yt q else b ! q)" if q: "q < length b" for q
  proof (cases "(int (q div 3) mod w, int (q div 3) div w) \<in> set ps")
    case True
    with r(4) q show ?thesis by simp
  next
    case False
    have px: "(int (q div 3) mod w = i \<and> int (q div 3) div w = j) \<longleftrightarrow> q div 3 = t"
      unfolding t_def using ij(1,2,3) by (rule pixel_of_position)
    have u: "?b1 ! q = (if q div 3 = t then (if q mod 3 = 2 then 255 else ?v) else b ! q)"
      using ct cl q by (rule update3_nth)
    have e: "expected_byte F w h xl xr yb yt q = (if q mod 3 = 2 then 255 else ?v)"
      if "q div 3 = t"
      using that px by (simp add: expected_byte_def)
    from False r(4) q have "b' ! q = ?b1 ! q" by simp
    with u e px False show ?thesis by (auto simp: p)
  qed
  show ?case
    using m1(1) r(1,2,3) nth by (auto simp: p)
qed

lemma render_pixels_image:
  fixes F :: "'f arith"
  assumes wh: "c_int w" "c_int h" and w0: "0 \<le> w" "0 \<le> h" and n: "c_int (w * h * 3)"
    and ps: "set ps = {0..<w} \<times> {0..<h}" and len: "length b = nat (w * h * 3)"
  shows "\<exists>m'. render_pixels F w h xl xr yb yt ps \<lparr> block = Some b, stores = [] \<rparr> = Inr m'
     \<and> block m' = Some (image F w h xl xr yb yt)"
proof -
  have p3: "0 \<le> w * h * 3" using w0 by simp
  have len': "int (length b) = w * h * 3" using len p3 by simp
  have rng: "\<forall>p \<in> set ps. 0 \<le> fst p \<and> fst p < w \<and> 0 \<le> snd p \<and> snd p < h"
    unfolding ps by auto
  from render_pixels_any_order [OF wh n rng _ len', of "\<lparr> block = Some b, stores = [] \<rparr>" F xl xr yb yt]
  obtain m' b' where r: "render_pixels F w h xl xr yb yt ps \<lparr> block = Some b, stores = [] \<rparr> = Inr m'"
    "block m' = Some b'" "length b' = length b"
    "\<forall>q < length b. b' ! q =
        (if (int (q div 3) mod w, int (q div 3) div w) \<in> set ps
         then expected_byte F w h xl xr yb yt q else b ! q)"
    by auto
  have "b' = image F w h xl xr yb yt"
  proof (rule nth_equalityI)
    show "length b' = length (image F w h xl xr yb yt)" using r(3) len by (simp add: image_def)
  next
    fix q assume "q < length b'"
    then have q: "q < length b" using r(3) by simp
    then have "int q < w * h * 3" using len' by linarith
    then have d: "int (q div 3) < w * h" by (simp add: zdiv_int)
    have wpos: "0 < w"
    proof (rule ccontr)
      assume "\<not> 0 < w"
      with w0 have "w = 0" by simp
      with d show False by simp
    qed
    have "0 \<le> int (q div 3) div w" using wpos by (simp add: pos_imp_zdiv_nonneg_iff)
    moreover have "int (q div 3) div w < h"
    proof (rule ccontr)
      assume "\<not> int (q div 3) div w < h"
      then have "h * w \<le> int (q div 3) div w * w"
        using wpos by (intro mult_right_mono) auto
      also have "\<dots> \<le> int (q div 3)"
        using pos_mod_sign [OF wpos, of "int (q div 3)"] div_mult_mod_eq [of "int (q div 3)" w]
        by linarith
      finally show False using d by (simp add: mult.commute)
    qed
    ultimately have "(int (q div 3) mod w, int (q div 3) div w) \<in> set ps"
      unfolding ps using wpos by simp
    with r(4) q len show "b' ! q = image F w h xl xr yb yt ! q"
      by (simp add: image_def)
  qed
  with r show ?thesis by blast
qed

text \<open>
  Claim C6. For a grid whose byte count is an \<^verbatim>\<open>int\<close> and an allocation that succeeds,
  the buffer \<^verbatim>\<open>julia_rgb\<close> returns is \<open>image F w h xl xr yb yt\<close>: it depends on the six
  inputs (and the float arithmetic) only, not on the allocator or on what the fresh
  block held. Running the loop body over the pixels of the grid in any order, from a
  block of that size with any contents, leaves the same buffer; and so do the stores of
  the run performed in any order. Whatever the order in which the workers reach the
  pixels, the result is the one of a single worker.
\<close>

theorem render_order_independent:
  assumes "c_int w" "c_int h" "0 \<le> w" "0 \<le> h" "c_int (w * h * 3)"
    and "malloc (nat (w * h * 3)) = Some init" "length init = nat (w * h * 3)"
  shows "\<exists>m. julia_rgb_heap F malloc w h xl xr yb yt = Inr m
     \<and> julia_rgb F malloc w h xl xr yb yt = Inr (Some (image F w h xl xr yb yt))
     \<and> (\<forall>ps b. set ps = {0..<w} \<times> {0..<h} \<and> length b = length init
           \<longrightarrow> (\<exists>m'. render_pixels F w h xl xr yb yt ps \<lparr> block = Some b, stores = [] \<rparr>
                        = Inr m'
                  \<and> block m' = Some (image F w h xl xr yb yt)))
     \<and> (\<forall>ss b. mset ss = mset (stores m) \<and> length b = length init
           \<longrightarrow> replay ss b = image F w h xl xr yb yt)"
proof -
  let ?m = "\<lparr> block = Some (map (expected_byte F w h xl xr yb yt) [0..<nat (w * h * 3)]),
              stores = map (\<lambda>p. (int p, expected_byte F w h xl xr yb yt p))
                         [0..<nat (w * h * 3)] \<rparr>"
  have h: "julia_rgb_heap F malloc w h xl xr yb yt = Inr ?m"
    by (rule julia_rgb_heap_filled [where malloc = malloc and init = init, OF assms])
  have r: "julia_rgb F malloc w h xl xr yb yt = Inr (Some (image F w h xl xr yb yt))"
    by (rule julia_rgb_image [where malloc = malloc and init = init, OF assms])
  have o: "\<forall>ps b. set ps = {0..<w} \<times> {0..<h} \<and> length b = length init
           \<longrightarrow> (\<exists>m'. render_pixels F w h xl xr yb yt ps \<lparr> block = Some b, stores = [] \<rparr>
                        = Inr m'
                  \<and> block m' = Some (image F w h xl xr yb yt))"
    using render_pixels_image [OF assms(1-5)] assms(7) by auto
  have p: "\<forall>ss b. mset ss = mset (stores ?m) \<and> length b = length init
           \<longrightarrow> replay ss b = image F w h xl xr yb yt"
    using assms(7) by (auto simp: image_def intro: replay_permutation)
  from h r o p show ?thesis by blast
qed

lemma pixels_2x2:
  "set [(1, 1), (0, 0), (1, 0), (0, 1)] = {0..<(2::int)} \<times> {0..<(2::int)}"
proof -
  have "{0..<(2::int)} = {0, 1}" by auto
  then show ?thesis by auto
qed

theorem render_order_independent_witness:
  "c_int 2 \<and> (0::int) \<le> 2 \<and> c_int (2 * 2 * 3)
   \<and> malloc_zeroed (nat (2 * 2 * 3)) = Some (replicate 12 0)
   \<and> julia_rgb real_arith malloc_zeroed 2 2 (- (3 / 2)) (3 / 2) (- (3 / 2)) (3 / 2)
        = Inr (Some (image real_arith 2 2 (- (3 / 2)) (3 / 2) (- (3 / 2)) (3 / 2)))
   \<and> (\<exists>m'. render_pixels real_arith 2 2 (- (3 / 2)) (3 / 2) (- (3 / 2)) (3 / 2)
               [(1, 1), (0, 0), (1, 0), (0, 1)] \<lparr> block = Some (replicate 12 7), stores = [] \<rparr>
             = Inr m'
          \<and> block m' = Some (image real_arith 2 2 (- (3 / 2)) (3 / 2) (- (3 / 2)) (3 / 2)))
   \<and> (\<exists>m. julia_rgb_heap real_arith malloc_zeroed 2 2 (- (3 / 2)) (3 / 2) (- (3 / 2)) (3 / 2)
             = Inr m
          \<and> replay (rev (stores m)) (replicate 12 7)
              = image real_arith 2 2 (- (3 / 2)) (3 / 2) (- (3 / 2)) (3 / 2))"
proof -
  from render_order_independent [of 2 2 malloc_zeroed "replicate 12 0" real_arith
      "- (3 / 2)" "3 / 2" "- (3 / 2)" "3 / 2"]
  obtain m where
    h: "julia_rgb_heap real_arith malloc_zeroed 2 2 (- (3 / 2)) (3 / 2) (- (3 / 2)) (3 / 2)
          = Inr m"
    and r: "julia_rgb real_arith malloc_zeroed 2 2 (- (3 / 2)) (3 / 2) (- (3 / 2)) (3 / 2)
        = Inr (Some (image real_arith 2 2 (- (3 / 2)) (3 / 2) (- (3 / 2)) (3 / 2)))"
    and o: "\<forall>ps b. set ps = {0..<2} \<times> {0..<2} \<and> length b = length (replicate 12 (0::byte))
           \<longrightarrow> (\<exists>m'. render_pixels real_arith 2 2 (- (3 / 2)) (3 / 2) (- (3 / 2)) (3 / 2) ps
                         \<lparr> block = Some b, stores = [] \<rparr> = Inr m'
                  \<and> block m' = Some (image real_arith 2 2 (- (3 / 2)) (3 / 2) (- (3 / 2)) (3 / 2)))"
    and p: "\<forall>ss b. mset ss = mset (stores m) \<and> length b = length (replicate 12 (0::byte))
           \<longrightarrow> replay ss b = image real_arith 2 2 (- (3 / 2)) (3 / 2) (- (3 / 2)) (3 / 2)"
    using c_int_small malloc_zeroed_12 by auto
  from o [rule_format, of "[(1, 1), (0, 0), (1, 0), (0, 1)]" "replicate 12 7"]
  have a: "\<exists>m'. render_pixels real_arith 2 2 (- (3 / 2)) (3 / 2) (- (3 / 2)) (3 / 2)
               [(1, 1), (0, 0), (1, 0), (0, 1)] \<lparr> block = Some (replicate 12 7), stores = [] \<rparr>
             = Inr m'
          \<and> block m' = Some (image real_arith 2 2 (- (3 / 2)) (3 / 2) (- (3 / 2)) (3 / 2))"
    using pixels_2x2 by simp
  from p [rule_format, of "rev (stores m)" "replicate 12 7"]
  have b: "replay (rev (stores m)) (replicate 12 7)
          = image real_arith 2 2 (- (3 / 2)) (3 / 2) (- (3 / 2)) (3 / 2)"
    by simp
  from h b have c: "\<exists>m. julia_rgb_heap real_arith malloc_zeroed 2 2 (- (3 / 2)) (3 / 2)
              (- (3 / 2)) (3 / 2) = Inr m
          \<and> replay (rev (stores m)) (replicate 12 7)
              = image real_arith 2 2 (- (3 / 2)) (3 / 2) (- (3 / 2)) (3 / 2)"
    by blast
  from r a c c_int_small(1) malloc_zeroed_12 show ?thesis
    by (simp add: c_int_small)
qed

lemma render_pixel_null:
  fixes F :: "'f arith"
  assumes wh: "c_int w" "c_int h" and ij: "0 \<le> i" "i < w" "0 \<le> j" "j < h"
    and n: "c_int (w * h * 3)" and blk: "block m = None"
  shows "render_pixel F w h xl xr yb yt j i m = Inl (Null_Store (offset w i j))"
proof -
  define q where "q = j * w + i"
  define N where "N = w * h"
  from offset_bound [OF ij] have b0: "0 \<le> j * w" and b1: "q + 1 \<le> N"
    by (simp_all add: q_def N_def)
  have q0: "0 \<le> q" using b0 ij by (simp add: q_def)
  have nN: "c_int (N * 3)" using n by (simp add: N_def)
  have jw: "j * w \<le> N * 3" using b0 b1 ij unfolding q_def by linarith
  have k1: "ck (j * w) = Inr (j * w)"
    using b0 jw nN by (rule ck_between)
  have k2: "ck (j * w + i) = Inr q"
    unfolding q_def [symmetric] using q0 b1 nN by (intro ck_between [of _ "N * 3"]) auto
  have k3: "ck (q * 3) = Inr (q * 3)"
    using q0 b1 nN by (intro ck_between [of _ "N * 3"]) auto
  have s: "store m (q * 3) v = Inl (Null_Store (q * 3))" for v
    using blk by (simp add: store_def)
  show ?thesis
    unfolding render_pixel_def offset_def q_def [symmetric]
    by (simp only: julia_point_valid [OF wh ij] k1 k2 k3 s sum.case)
qed

lemma offset_in_image:
  fixes w h i j :: int
  assumes "0 \<le> i" "i < w" "0 \<le> j" "j < h"
  shows "0 \<le> offset w i j" "offset w i j < w * h * 3"
proof -
  define q where "q = j * w + i"
  define N where "N = w * h"
  from offset_bound [OF assms] assms have "0 \<le> q" "q + 1 \<le> N"
    by (simp_all add: q_def N_def)
  then have "0 \<le> q * 3" "q * 3 < N * 3" by linarith+
  then show "0 \<le> offset w i j" "offset w i j < w * h * 3"
    by (simp_all add: offset_def q_def N_def)
qed

lemma render_pixels_null:
  fixes F :: "'f arith"
  assumes "c_int w" "c_int h" "0 \<le> fst p" "fst p < w" "0 \<le> snd p" "snd p < h"
    and "c_int (w * h * 3)"
  shows "render_pixels F w h xl xr yb yt (p # ps) \<lparr> block = None, stores = [] \<rparr>
           = Inl (Null_Store (offset w (fst p) (snd p)))"
  using assms by (simp add: render_pixel_null)

lemma fill_rows_null:
  fixes F :: "'f arith"
  assumes "c_int w" "c_int h" "1 \<le> w" "1 \<le> h" "c_int (w * h * 3)"
  shows "fill_rows F w h xl xr yb yt 0 \<lparr> block = None, stores = [] \<rparr> = Inl (Null_Store 0)"
proof -
  have px: "render_pixel F w h xl xr yb yt 0 0 \<lparr> block = None, stores = [] \<rparr>
      = Inl (Null_Store 0)"
    using assms render_pixel_null [of w h 0 0 "\<lparr> block = None, stores = [] \<rparr>" F xl xr yb yt]
    by (simp add: offset_def)
  have row: "fill_row F w h xl xr yb yt 0 0 \<lparr> block = None, stores = [] \<rparr>
      = Inl (Null_Store 0)"
    using assms by (subst fill_row_unfold) (simp add: px)
  show ?thesis
    using assms by (subst fill_rows_unfold) (simp add: row)
qed

lemma julia_rgb_null:
  fixes F :: "'f arith"
  assumes "c_int w" "c_int h" "1 \<le> w" "1 \<le> h" "c_int (w * h * 3)"
    and "malloc (nat (w * h * 3)) = None"
  shows "julia_rgb F malloc w h xl xr yb yt = Inl (Null_Store 0)"
proof -
  have p: "0 \<le> w * h" using assms by simp
  have p3: "0 \<le> w * h * 3" "w * h \<le> w * h * 3" using p by linarith+
  have c1: "ck (w * h) = Inr (w * h)" using p p3(2) assms(5) by (rule ck_between)
  have c2: "ck (w * h * 3) = Inr (w * h * 3)" using assms(5) by (rule ck_ok)
  have sz: "size_t (w * h * 3) = nat (w * h * 3)" using p3(1) assms(5) by (rule size_t_int)
  show ?thesis
    by (simp add: julia_rgb_def julia_rgb_heap_def c1 c2 sz assms(6)
        fill_rows_null [OF assms(1-5)])
qed

text \<open>
  Claim C9, as amended. \<^verbatim>\<open>julia_rgb\<close> does not test what \<^verbatim>\<open>malloc\<close> returns. If the
  allocation fails, for \<open>W \<ge> 1\<close>, \<open>H \<ge> 1\<close> (with \<open>3 W H\<close> an \<^verbatim>\<open>int\<close>) the loops are
  entered with the null pointer, and the run ends in a store through it at some index
  of the image, which is undefined behaviour: no pointer is returned and nothing
  reports the failure. This does not depend on the order in which the workers take the
  pixels: whichever pixel of the grid is rendered first, the loop body ends in a store
  through the null pointer.
\<close>

theorem julia_rgb_alloc_failure:
  assumes "c_int w" "c_int h" "1 \<le> w" "1 \<le> h" "c_int (w * h * 3)"
    and "malloc (nat (w * h * 3)) = None"
  shows "(\<exists>k. 0 \<le> k \<and> k < w * h * 3
            \<and> julia_rgb F malloc w h xl xr yb yt = Inl (Null_Store k))
     \<and> (\<forall>p ps. 0 \<le> fst p \<and> fst p < w \<and> 0 \<le> snd p \<and> snd p < h \<longrightarrow>
          (\<exists>k. 0 \<le> k \<and> k < w * h * 3
             \<and> render_pixels F w h xl xr yb yt (p # ps)
                  \<lparr> block = malloc (nat (w * h * 3)), stores = [] \<rparr> = Inl (Null_Store k)))"
proof (intro conjI allI impI)
  have "0 < w * h * 3" using assms by simp
  then show "\<exists>k. 0 \<le> k \<and> k < w * h * 3
      \<and> julia_rgb F malloc w h xl xr yb yt = Inl (Null_Store k)"
    using julia_rgb_null [where malloc = malloc and F = F, OF assms] by (intro exI [of _ 0]) simp
next
  fix p :: "int \<times> int" and ps
  assume p: "0 \<le> fst p \<and> fst p < w \<and> 0 \<le> snd p \<and> snd p < h"
  then have q: "0 \<le> fst p" "fst p < w" "0 \<le> snd p" "snd p < h" by simp_all
  have "0 \<le> offset w (fst p) (snd p)" "offset w (fst p) (snd p) < w * h * 3"
    using q by (rule offset_in_image)+
  moreover have "render_pixels F w h xl xr yb yt (p # ps)
      \<lparr> block = malloc (nat (w * h * 3)), stores = [] \<rparr>
        = Inl (Null_Store (offset w (fst p) (snd p)))"
    unfolding assms(6) using assms(1,2) p assms(5) by (intro render_pixels_null) simp_all
  ultimately show "\<exists>k. 0 \<le> k \<and> k < w * h * 3
      \<and> render_pixels F w h xl xr yb yt (p # ps)
           \<lparr> block = malloc (nat (w * h * 3)), stores = [] \<rparr> = Inl (Null_Store k)"
    by blast
qed

theorem julia_rgb_alloc_failure_witness:
  "c_int 3 \<and> c_int 2 \<and> (1::int) \<le> 3 \<and> (1::int) \<le> 2 \<and> c_int (3 * 2 * 3)
   \<and> malloc_fails (nat (3 * 2 * 3)) = None
   \<and> (\<exists>k. 0 \<le> k \<and> k < 18
          \<and> julia_rgb real_arith malloc_fails 3 2 (- (3 / 2)) (3 / 2) (- (3 / 2)) (3 / 2)
               = Inl (Null_Store k))
   \<and> (\<exists>k. 0 \<le> k \<and> k < 18
          \<and> render_pixels real_arith 3 2 (- (3 / 2)) (3 / 2) (- (3 / 2)) (3 / 2)
               [(2, 1), (0, 0), (1, 0), (2, 0), (0, 1), (1, 1)]
               \<lparr> block = malloc_fails 18, stores = [] \<rparr> = Inl (Null_Store k))"
proof -
  have a: "c_int 3 \<and> c_int 2 \<and> (1::int) \<le> 3 \<and> (1::int) \<le> 2 \<and> c_int (3 * 2 * 3)
      \<and> malloc_fails (nat (3 * 2 * 3)) = None"
    by (simp add: c_int_def INT_MIN_def INT_MAX_def malloc_fails_def)
  from julia_rgb_alloc_failure [of 3 2 malloc_fails real_arith
      "- (3 / 2)" "3 / 2" "- (3 / 2)" "3 / 2"] a
  have b: "(\<exists>k. 0 \<le> k \<and> k < 18
          \<and> julia_rgb real_arith malloc_fails 3 2 (- (3 / 2)) (3 / 2) (- (3 / 2)) (3 / 2)
               = Inl (Null_Store k))"
    and c: "\<forall>p ps. 0 \<le> fst p \<and> fst p < 3 \<and> 0 \<le> snd p \<and> snd p < 2 \<longrightarrow>
          (\<exists>k. 0 \<le> k \<and> k < 18
             \<and> render_pixels real_arith 3 2 (- (3 / 2)) (3 / 2) (- (3 / 2)) (3 / 2) (p # ps)
                  \<lparr> block = malloc_fails 18, stores = [] \<rparr> = Inl (Null_Store k))"
    by simp_all
  from c [rule_format, of "(2, 1)" "[(0, 0), (1, 0), (2, 0), (0, 1), (1, 1)]"]
  have d: "\<exists>k. 0 \<le> k \<and> k < 18
          \<and> render_pixels real_arith 3 2 (- (3 / 2)) (3 / 2) (- (3 / 2)) (3 / 2)
               [(2, 1), (0, 0), (1, 0), (2, 0), (0, 1), (1, 1)]
               \<lparr> block = malloc_fails 18, stores = [] \<rparr> = Inl (Null_Store k)"
    by simp
  from a b d show ?thesis by blast
qed

text \<open>
  With a failing allocator the 2 by 2 grid ends in a store through the null pointer:
  to \<^verbatim>\<open>rgb[0]\<close> in the order of a single thread, to \<^verbatim>\<open>rgb[9]\<close> when pixel \<open>(1, 1)\<close> is
  rendered first. The pixel loop was entered, and the end is a fault, not a report.
\<close>

theorem julia_rgb_alloc_failure_null_store:
  "julia_rgb real_arith malloc_fails 2 2 (- (3 / 2)) (3 / 2) (- (3 / 2)) (3 / 2)
     = Inl (Null_Store 0)
   \<and> render_pixels real_arith 2 2 (- (3 / 2)) (3 / 2) (- (3 / 2)) (3 / 2)
       [(1, 1), (0, 0), (1, 0), (0, 1)] \<lparr> block = malloc_fails 12, stores = [] \<rparr>
     = Inl (Null_Store 9)"
proof -
  have a: "julia_rgb real_arith malloc_fails 2 2 (- (3 / 2)) (3 / 2) (- (3 / 2)) (3 / 2)
     = Inl (Null_Store 0)"
    by (rule julia_rgb_null) (simp_all add: c_int_def INT_MIN_def INT_MAX_def malloc_fails_def)
  have b: "render_pixels real_arith 2 2 (- (3 / 2)) (3 / 2) (- (3 / 2)) (3 / 2)
       [(1, 1), (0, 0), (1, 0), (0, 1)] \<lparr> block = None, stores = [] \<rparr>
     = Inl (Null_Store 9)"
    using render_pixels_null [of 2 2 "(1, 1)" real_arith "- (3 / 2)" "3 / 2" "- (3 / 2)" "3 / 2"
        "[(0, 0), (1, 0), (0, 1)]"]
    by (simp add: c_int_def INT_MIN_def INT_MAX_def offset_def)
  from a b show ?thesis by (simp add: malloc_fails_def)
qed


section \<open>The encoder\<close>

lemma byte_of_nonneg:
  assumes "0 \<le> v" "v < 256"
  shows "unat (of_int v :: byte) = nat v"
  using assms by (simp add: unat_eq_nat_uint uint_word_of_int)

lemma header2_unat:
  assumes "0 \<le> w" "w < 65536" "0 \<le> h" "h < 65536"
  shows "map unat (header2 w h)
           = [nat (w mod 256), nat (w div 256), nat (h mod 256), nat (h div 256), 24, 0]"
proof -
  have s: "w smod 256 = w mod 256" "w sdiv 256 = w div 256"
    "h smod 256 = h mod 256" "h sdiv 256 = h div 256"
    using assms by (auto simp: signed_modulo_int_def signed_divide_int_def sgn_if)
  have b: "0 \<le> w mod 256" "w mod 256 < 256" "0 \<le> w div 256" "w div 256 < 256"
    "0 \<le> h mod 256" "h mod 256 < 256" "0 \<le> h div 256" "h div 256 < 256"
    using assms by auto
  show ?thesis
    by (simp add: header2_def s byte_of_nonneg b)
qed

lemma tga_write_ok:
  assumes "0 \<le> w" "w < 65536" "0 \<le> h" "h < 65536" "c_int (3 * w * h)"
    and "length b = nat (3 * w * h)"
  shows "tga_write True w h (Some b) = Inr (header1 @ header2 w h @ b)"
proof -
  have c1: "ck (3 * w) = Inr (3 * w)"
    using assms by (simp add: ck_def c_int_def INT_MIN_def INT_MAX_def)
  have p: "0 \<le> 3 * w * h" using assms by simp
  have sz: "size_t (3 * w * h) = nat (3 * w * h)" using p assms(5) by (rule size_t_int)
  show ?thesis
    by (simp add: tga_write_def c1 ck_ok assms(5,6) sz)
qed

text \<open>
  Claim C3, as amended. For \<open>0 \<le> W, H < 65536\<close> with \<open>3 W H\<close> an \<^verbatim>\<open>int\<close>, an open
  stream and a pixel buffer of \<open>3 W H\<close> bytes, the file \<^verbatim>\<open>tga_write\<close> leaves has
  \<open>18 + 3 W H\<close> bytes: the twelve bytes \<open>0 0 2 0 0 0 0 0 0 0 0 0\<close>, then the six bytes
  \<open>W mod 256\<close>, \<open>W div 256\<close>, \<open>H mod 256\<close>, \<open>H div 256\<close>, 24, 0, then the buffer as it is.
  The witness holds the two instances of the claim: 30 bytes for the 2 by 2 image, and
  the second header 44, 1, 10, 0, 24, 0 for the 300 by 10 image.
\<close>

theorem tga_write_file:
  assumes "0 \<le> w" "w < 65536" "0 \<le> h" "h < 65536" "c_int (3 * w * h)"
    and "length b = nat (3 * w * h)"
  shows "\<exists>file. tga_write True w h (Some b) = Inr file
     \<and> int (length file) = 18 + 3 * w * h
     \<and> take 12 file = [0, 0, 2, 0, 0, 0, 0, 0, 0, 0, 0, 0]
     \<and> map unat (take 6 (drop 12 file))
          = [nat (w mod 256), nat (w div 256), nat (h mod 256), nat (h div 256), 24, 0]
     \<and> drop 18 file = b"
proof -
  let ?file = "header1 @ header2 w h @ b"
  have l1: "length header1 = 12" by (simp add: header1_def)
  have l2: "length (header2 w h) = 6" by (simp add: header2_def)
  have p: "0 \<le> 3 * w * h" using assms by simp
  have a: "tga_write True w h (Some b) = Inr ?file" using assms by (rule tga_write_ok)
  have b: "int (length ?file) = 18 + 3 * w * h" using assms(6) p by (simp add: l1 l2)
  have c: "take 12 ?file = [0, 0, 2, 0, 0, 0, 0, 0, 0, 0, 0, 0]"
    by (simp add: l1) (simp add: header1_def)
  have "take 6 (drop 12 ?file) = header2 w h" by (simp add: l1 l2)
  then have d: "map unat (take 6 (drop 12 ?file))
      = [nat (w mod 256), nat (w div 256), nat (h mod 256), nat (h div 256), 24, 0]"
    using header2_unat [OF assms(1-4)] by simp
  have e: "drop 18 ?file = b" by (simp add: l1 l2)
  show ?thesis
    by (rule exI [of _ ?file]) (simp only: a b c d e simp_thms)
qed

text \<open>
  For \<open>W = 65535\<close>, \<open>H = 10923\<close>, both below 65536, the count \<^verbatim>\<open>3 * w * h\<close> is
  2147516415, beyond \<^verbatim>\<open>INT_MAX\<close>: the multiplication overflows.
\<close>

theorem tga_write_file_overflow:
  "tga_write True 65535 10923 (Some (replicate 2147516415 0)) = Inl Signed_Overflow"
  by (simp add: tga_write_def ck_def c_int_def INT_MIN_def INT_MAX_def)

theorem tga_write_file_witness:
  "(\<exists>file. tga_write True 2 2 (Some (replicate 12 255)) = Inr file \<and> int (length file) = 30)
   \<and> (\<exists>file. tga_write True 300 10 (Some (replicate 9000 255)) = Inr file
         \<and> map unat (take 6 (drop 12 file)) = [44, 1, 10, 0, 24, 0])"
proof -
  have c: "c_int 12" "c_int 9000"
    by (simp_all add: c_int_def INT_MIN_def INT_MAX_def)
  have "\<exists>file. tga_write True 2 2 (Some (replicate 12 255)) = Inr file
     \<and> int (length file) = 18 + 3 * 2 * 2
     \<and> take 12 file = [0, 0, 2, 0, 0, 0, 0, 0, 0, 0, 0, 0]
     \<and> map unat (take 6 (drop 12 file))
          = [nat (2 mod 256), nat (2 div 256), nat (2 mod 256), nat (2 div 256), 24, 0]
     \<and> drop 18 file = replicate 12 255"
    by (rule tga_write_file) (simp_all add: c)
  then obtain f1 where f1: "tga_write True 2 2 (Some (replicate 12 255)) = Inr f1"
    "int (length f1) = 18 + 3 * 2 * 2" by (elim exE conjE)
  have "\<exists>file. tga_write True 300 10 (Some (replicate 9000 255)) = Inr file
     \<and> int (length file) = 18 + 3 * 300 * 10
     \<and> take 12 file = [0, 0, 2, 0, 0, 0, 0, 0, 0, 0, 0, 0]
     \<and> map unat (take 6 (drop 12 file))
          = [nat (300 mod 256), nat (300 div 256), nat (10 mod 256), nat (10 div 256), 24, 0]
     \<and> drop 18 file = replicate 9000 255"
    by (rule tga_write_file) (simp_all add: c)
  then obtain f2 where f2: "tga_write True 300 10 (Some (replicate 9000 255)) = Inr f2"
    "map unat (take 6 (drop 12 f2))
          = [nat (300 mod 256), nat (300 div 256), nat (10 mod 256), nat (10 div 256), 24, 0]"
    by (elim exE conjE)
  have n: "[nat (300 mod 256), nat (300 div 256), nat (10 mod 256), nat (10 div 256), 24, 0]
      = [44, 1, 10, 0, 24, 0]" by simp
  have a: "\<exists>file. tga_write True 2 2 (Some (replicate 12 255)) = Inr file
      \<and> int (length file) = 30"
    using f1 by simp
  have b: "\<exists>file. tga_write True 300 10 (Some (replicate 9000 255)) = Inr file
         \<and> map unat (take 6 (drop 12 file)) = [44, 1, 10, 0, 24, 0]"
    using f2 unfolding n by (intro exI [of _ f2] conjI)
  from a b show ?thesis by (rule conjI)
qed


section \<open>Symmetry, and the evaluator in binary32 arithmetic\<close>

lemma fp_neg_neg [simp]: "fp_neg (fp_neg x) = x"
  by (cases x) simp_all

lemma fp_round_neg: "fp_neg (fp_round rnd s n d e) = fp_round rnd (\<not> s) n d e"
  by (simp add: fp_round_def split: option.split prod.split)

lemma fp_round_flip: "fp_round rnd (\<not> s) n d e = fp_neg (fp_round rnd s n d e)"
  by (simp add: fp_round_neg)

lemma is_zero_neg [simp]: "is_zero (fp_neg x) = is_zero x"
  by (cases x) (auto simp: is_zero_def)

lemma is_zero_round_cases:
  "is_zero (fp_round rnd s n d e) \<or> (\<forall>t k. fp_round rnd s n d e \<noteq> Finite t 0 k)"
  by (auto simp: fp_round_def is_zero_def split: option.split prod.split)

lemma fp_round_eq: "s = (\<not> t) \<Longrightarrow> fp_round rnd s n d e = fp_neg (fp_round rnd t n d e)"
  by (simp add: fp_round_neg)

lemma times_neg_right: "fp_times rnd x (fp_neg y) = fp_neg (fp_times rnd x y)"
  by (cases x; cases y) (auto intro!: fp_round_eq)

lemma times_neg_left: "fp_times rnd (fp_neg x) y = fp_neg (fp_times rnd x y)"
  by (cases x; cases y) (auto intro!: fp_round_eq)

lemma times_neg_neg: "fp_times rnd (fp_neg x) (fp_neg y) = fp_times rnd x y"
  by (simp add: times_neg_left times_neg_right)

lemma signed_neg: "signed (\<not> s) m = - signed s m"
  by (simp add: signed_def)

lemma plus_finite:
  "fp_plus rnd (Finite s m1 e1) (Finite t m2 e2) =
     (if signed s (m1 * 2 ^ nat (e1 - min e1 e2)) + signed t (m2 * 2 ^ nat (e2 - min e1 e2)) = 0
      then Finite (s \<and> t) 0 0
      else fp_round rnd
        (signed s (m1 * 2 ^ nat (e1 - min e1 e2)) + signed t (m2 * 2 ^ nat (e2 - min e1 e2)) < 0)
        \<bar>signed s (m1 * 2 ^ nat (e1 - min e1 e2)) + signed t (m2 * 2 ^ nat (e2 - min e1 e2))\<bar>
        1 (min e1 e2))"
  by (simp add: Let_def)

lemma plus_swap: "opposite (fp_plus rnd p (fp_neg q)) (fp_plus rnd q (fp_neg p))"
proof (cases p)
  case (Finite s m1 e1)
  note p = this
  show ?thesis
  proof (cases q)
    case (Finite t m2 e2)
    define a where "a = signed s (m1 * 2 ^ nat (e1 - min e1 e2))
        + signed (\<not> t) (m2 * 2 ^ nat (e2 - min e1 e2))"
    define b where "b = signed t (m2 * 2 ^ nat (e2 - min e2 e1))
        + signed (\<not> s) (m1 * 2 ^ nat (e1 - min e2 e1))"
    have ba: "b = - a" by (simp add: a_def b_def signed_neg min.commute)
    have l: "fp_plus rnd p (fp_neg q) =
        (if a = 0 then Finite (s \<and> \<not> t) 0 0 else fp_round rnd (a < 0) \<bar>a\<bar> 1 (min e1 e2))"
      unfolding p Finite fp_neg.simps plus_finite a_def ..
    have r: "fp_plus rnd q (fp_neg p) =
        (if b = 0 then Finite (t \<and> \<not> s) 0 0 else fp_round rnd (b < 0) \<bar>b\<bar> 1 (min e2 e1))"
      unfolding p Finite fp_neg.simps plus_finite b_def ..
    show ?thesis
    proof (cases "a = 0")
      case True
      then show ?thesis unfolding l r ba by (simp add: opposite_def is_zero_def)
    next
      case False
      then have "(- a < 0) = (\<not> (a < 0))" by auto
      then have "fp_round rnd (- a < 0) \<bar>a\<bar> 1 (min e1 e2)
          = fp_neg (fp_round rnd (a < 0) \<bar>a\<bar> 1 (min e1 e2))"
        by (rule fp_round_eq)
      with False show ?thesis unfolding l r ba
        by (simp add: opposite_def min.commute)
    qed
  next
    case (Infinity t)
    then show ?thesis by (simp add: p opposite_def)
  next
    case NaN
    then show ?thesis by (simp add: p opposite_def)
  qed
next
  case (Infinity s)
  then show ?thesis by (cases q) (auto simp: opposite_def)
next
  case NaN
  then show ?thesis by (cases q) (auto simp: opposite_def)
qed

lemma divide_neg_left: "fp_divide rnd (fp_neg u) n = fp_neg (fp_divide rnd u n)"
  by (cases u; cases n) (auto intro!: fp_round_eq)

lemma divide_zero: "is_zero u \<Longrightarrow> is_zero u' \<Longrightarrow>
    opposite (fp_divide rnd u n) (fp_divide rnd u' n)"
  by (cases n) (auto simp: is_zero_def opposite_def)

lemma divide_opposite:
  assumes "opposite u u'"
  shows "opposite (fp_divide rnd u n) (fp_divide rnd u' n)"
proof (cases "u' = fp_neg u")
  case True
  then show ?thesis by (simp add: divide_neg_left opposite_def)
next
  case False
  with assms have "is_zero u" "is_zero u'" by (auto simp: opposite_def)
  then show ?thesis by (rule divide_zero)
qed


lemma signed_zero [simp]: "signed s 0 = 0"
  by (simp add: signed_def)

lemma times_square_opposite:
  assumes "opposite x x'"
  shows "fp_times rnd x' x' = fp_times rnd x x"
proof (cases "x' = fp_neg x")
  case True
  then show ?thesis by (simp add: times_neg_neg)
next
  case False
  with assms have "is_zero x" "is_zero x'" by (auto simp: opposite_def)
  then show ?thesis by (auto simp: is_zero_def)
qed

lemma times_zero_left:
  "is_zero z \<Longrightarrow> is_zero z' \<Longrightarrow> same_or_zero (fp_times rnd z y) (fp_times rnd z' (fp_neg y))"
  by (cases y) (auto simp: is_zero_def same_or_zero_def)

lemma times_zero_right:
  "is_zero z \<Longrightarrow> is_zero z' \<Longrightarrow> same_or_zero (fp_times rnd x z) (fp_times rnd (fp_neg x) z')"
  by (cases x) (auto simp: is_zero_def same_or_zero_def)

lemma times_zero_zero:
  "is_zero x \<Longrightarrow> is_zero x' \<Longrightarrow> is_zero y \<Longrightarrow> is_zero y' \<Longrightarrow>
    same_or_zero (fp_times rnd x y) (fp_times rnd x' y')"
  by (auto simp: is_zero_def same_or_zero_def)

lemma times_opposite:
  assumes "opposite x x'" "opposite y y'"
  shows "same_or_zero (fp_times rnd x y) (fp_times rnd x' y')"
proof -
  consider "x' = fp_neg x" "y' = fp_neg y"
    | "is_zero x" "is_zero x'" "y' = fp_neg y"
    | "x' = fp_neg x" "is_zero y" "is_zero y'"
    | "is_zero x" "is_zero x'" "is_zero y" "is_zero y'"
    using assms by (auto simp: opposite_def)
  then show ?thesis
  proof cases
    case 1
    then show ?thesis by (simp add: times_neg_neg same_or_zero_def)
  next
    case 2
    then show ?thesis by (simp add: times_zero_left)
  next
    case 3
    then show ?thesis by (simp add: times_zero_right)
  next
    case 4
    then show ?thesis by (rule times_zero_zero)
  qed
qed

lemma plus_zero_right:
  "is_zero z \<Longrightarrow> is_zero z' \<Longrightarrow> same_or_zero (fp_plus rnd u z) (fp_plus rnd u z')"
  by (cases u) (auto simp: is_zero_def same_or_zero_def Let_def)

lemma plus_zero_left:
  "is_zero z \<Longrightarrow> is_zero z' \<Longrightarrow> same_or_zero (fp_plus rnd z v) (fp_plus rnd z' v)"
  by (cases v) (auto simp: is_zero_def same_or_zero_def Let_def)

lemma plus_zero_zero:
  "is_zero u \<Longrightarrow> is_zero u' \<Longrightarrow> is_zero v \<Longrightarrow> is_zero v' \<Longrightarrow>
    same_or_zero (fp_plus rnd u v) (fp_plus rnd u' v')"
  by (auto simp: is_zero_def same_or_zero_def)

lemma plus_same_or_zero:
  assumes "same_or_zero u u'" "same_or_zero v v'"
  shows "same_or_zero (fp_plus rnd u v) (fp_plus rnd u' v')"
proof -
  consider "u' = u" "v' = v"
    | "u' = u" "is_zero v" "is_zero v'"
    | "is_zero u" "is_zero u'" "v' = v"
    | "is_zero u" "is_zero u'" "is_zero v" "is_zero v'"
    using assms by (auto simp: same_or_zero_def)
  then show ?thesis
  proof cases
    case 1
    then show ?thesis by (simp add: same_or_zero_def)
  next
    case 2
    then show ?thesis by (simp add: plus_zero_right)
  next
    case 3
    then show ?thesis by (simp add: plus_zero_left)
  next
    case 4
    then show ?thesis by (rule plus_zero_zero)
  qed
qed

lemma plus_constant:
  assumes "same_or_zero u u'" "\<forall>s e. c \<noteq> Finite s 0 e"
  shows "fp_plus rnd u' c = fp_plus rnd u c"
proof (cases "u' = u")
  case True
  then show ?thesis by simp
next
  case False
  with assms have "is_zero u" "is_zero u'" by (auto simp: same_or_zero_def)
  with assms(2) show ?thesis by (cases c) (auto simp: is_zero_def Let_def signed_def)
qed

lemma ieee_arith_simps [simp]:
  "plus_f (ieee_arith rnd dec) = fp_plus rnd"
  "minus_f (ieee_arith rnd dec) = fp_minus rnd"
  "times_f (ieee_arith rnd dec) = fp_times rnd"
  "divide_f (ieee_arith rnd dec) = fp_divide rnd"
  "less_f (ieee_arith rnd dec) = fp_less"
  "float_of_int (ieee_arith rnd dec) = fp_of_int rnd"
  "float_of_decimal (ieee_arith rnd dec) = dec"
  by (simp_all add: ieee_arith_def)

lemma julia_update_opposite:
  assumes "opposite x x'" "opposite y y'" "\<forall>s e. ci (ieee_arith rnd dec) \<noteq> Finite s 0 e"
  shows "julia_update (ieee_arith rnd dec) (x', y') = julia_update (ieee_arith rnd dec) (x, y)"
proof -
  let ?ci = "ci (ieee_arith rnd dec)"
  have sx: "fp_times rnd x' x' = fp_times rnd x x" using assms(1) by (rule times_square_opposite)
  have sy: "fp_times rnd y' y' = fp_times rnd y y" using assms(2) by (rule times_square_opposite)
  have "same_or_zero (fp_plus rnd (fp_times rnd x y) (fp_times rnd y x))
          (fp_plus rnd (fp_times rnd x' y') (fp_times rnd y' x'))"
    using assms(1,2) by (intro plus_same_or_zero times_opposite)
  then have c: "fp_plus rnd (fp_plus rnd (fp_times rnd x' y') (fp_times rnd y' x')) ?ci
      = fp_plus rnd (fp_plus rnd (fp_times rnd x y) (fp_times rnd y x)) ?ci"
    using assms(3) by (rule plus_constant)
  show ?thesis
    by (simp add: julia_update_def Let_def sx sy c)
qed

lemma coord_opposite:
  "opposite (coord (ieee_arith rnd dec) n lo (fp_neg lo) i)
            (coord (ieee_arith rnd dec) n lo (fp_neg lo) (n - 1 - i))"
proof -
  have e: "n - (n - 1 - i) - 1 = i" "n - i - 1 = n - 1 - i" by simp_all
  show ?thesis
    unfolding coord_def e ieee_arith_simps times_neg_right
    by (intro divide_opposite plus_swap)
qed

lemma julia_loop_opposite:
  assumes "opposite x x'" "opposite y y'" "\<forall>s e. ci (ieee_arith rnd dec) \<noteq> Finite s 0 e"
  shows "julia_loop (ieee_arith rnd dec) (x', y') 0 = julia_loop (ieee_arith rnd dec) (x, y) 0"
proof -
  have "julia_update (ieee_arith rnd dec) (x', y') = julia_update (ieee_arith rnd dec) (x, y)"
    using assms by (rule julia_update_opposite)
  then show ?thesis by (subst (1 2) julia_loop_unfold) simp
qed

lemma rotation:
  assumes "c_int w" "c_int h" "1 < w" "1 < h" "0 \<le> i" "i < w" "0 \<le> j" "j < h"
    and "\<forall>s e. ci (ieee_arith rnd dec) \<noteq> Finite s 0 e"
  shows "\<exists>r. julia_point (ieee_arith rnd dec) w h xl (fp_neg xl) yb (fp_neg yb) i j = Inr r
     \<and> julia_point (ieee_arith rnd dec) w h xl (fp_neg xl) yb (fp_neg yb) (w - 1 - i) (h - 1 - j)
         = Inr r"
proof -
  let ?F = "ieee_arith rnd dec"
  have a: "julia_point_steps ?F w h xl (fp_neg xl) yb (fp_neg yb) i j =
      Inr (julia_loop ?F (coord ?F w xl (fp_neg xl) i, coord ?F h yb (fp_neg yb) j) 0)"
    using assms by (intro julia_point_steps_valid) auto
  have b: "julia_point_steps ?F w h xl (fp_neg xl) yb (fp_neg yb) (w - 1 - i) (h - 1 - j) =
      Inr (julia_loop ?F (coord ?F w xl (fp_neg xl) (w - 1 - i),
                          coord ?F h yb (fp_neg yb) (h - 1 - j)) 0)"
    using assms by (intro julia_point_steps_valid) auto
  have c: "julia_loop ?F (coord ?F w xl (fp_neg xl) (w - 1 - i),
                          coord ?F h yb (fp_neg yb) (h - 1 - j)) 0
      = julia_loop ?F (coord ?F w xl (fp_neg xl) i, coord ?F h yb (fp_neg yb) j) 0"
    using coord_opposite coord_opposite assms(9) by (rule julia_loop_opposite)
  show ?thesis by (simp add: julia_point_def a b c)
qed


text \<open>
  Claim C10. In IEEE 754 arithmetic, whatever the rounding of magnitudes \<open>rnd\<close> and
  the conversion of literals \<open>dec\<close> (provided the constant \<^verbatim>\<open>ci\<close> is not a zero): with
  bounds symmetric about the origin, \<^verbatim>\<open>xr = -xl\<close> and \<^verbatim>\<open>yt = -yb\<close>, \<^verbatim>\<open>julia_point\<close>
  returns the same value for the pixel \<open>(i, j)\<close> and for the pixel
  \<open>(W - 1 - i, H - 1 - j)\<close> of a grid with \<open>W > 1\<close>, \<open>H > 1\<close>. The two pixels map to
  opposite points (or both to a zero), and the first update gives the same pair from
  both (lemmas \<open>coord_opposite\<close> and \<open>julia_update_opposite\<close>).
\<close>

theorem julia_point_rotation:
  assumes "c_int w" "c_int h" "1 < w" "1 < h" "0 \<le> i" "i < w" "0 \<le> j" "j < h"
    and "\<forall>s e. ci (ieee_arith rnd dec) \<noteq> Finite s 0 e"
  shows "\<exists>r. julia_point (ieee_arith rnd dec) w h xl (fp_neg xl) yb (fp_neg yb) i j = Inr r
     \<and> julia_point (ieee_arith rnd dec) w h xl (fp_neg xl) yb (fp_neg yb) (w - 1 - i) (h - 1 - j)
         = Inr r"
  using assms by (rule rotation)

lemma ci_binary32: "ci binary32 = Finite False 10468983 (- 26)"
  by code_simp

lemma c_int_grid: "c_int 3" "c_int 20000"
  by (simp_all add: c_int_def INT_MIN_def INT_MAX_def)

theorem julia_point_rotation_witness:
  "c_int 3 \<and> (1::int) < 3 \<and> (0::int) \<le> 1 \<and> ci binary32 = Finite False 10468983 (- 26)
   \<and> (\<exists>r. julia_point binary32 3 3 (Finite True 12582912 (- 23)) (Finite False 12582912 (- 23))
               (Finite True 12582912 (- 23)) (Finite False 12582912 (- 23)) 0 1 = Inr r
          \<and> julia_point binary32 3 3 (Finite True 12582912 (- 23)) (Finite False 12582912 (- 23))
               (Finite True 12582912 (- 23)) (Finite False 12582912 (- 23)) 2 1 = Inr r)"
proof -
  have z: "\<forall>s e. ci (ieee_arith (round_binary binary32_format) fp_of_decimal) \<noteq> Finite s 0 e"
    using ci_binary32 by (simp add: binary32_def)
  from julia_point_rotation [of 3 3 0 1 "round_binary binary32_format" fp_of_decimal
      "Finite True 12582912 (- 23)" "Finite True 12582912 (- 23)", OF _ _ _ _ _ _ _ _ z]
  have "\<exists>r. julia_point binary32 3 3 (Finite True 12582912 (- 23)) (Finite False 12582912 (- 23))
               (Finite True 12582912 (- 23)) (Finite False 12582912 (- 23)) 0 1 = Inr r
          \<and> julia_point binary32 3 3 (Finite True 12582912 (- 23)) (Finite False 12582912 (- 23))
               (Finite True 12582912 (- 23)) (Finite False 12582912 (- 23)) 2 1 = Inr r"
    using c_int_grid by (simp add: binary32_def)
  with c_int_grid ci_binary32 show ?thesis by simp
qed

lemma bounds_binary32:
  "float_of_decimal binary32 (- (3 / 2)) = Finite True 12582912 (- 23)"
  "float_of_decimal binary32 (3 / 2) = Finite False 12582912 (- 23)"
  by code_simp+

lemma coords_binary32:
  "interpolate binary32 20000 (Finite True 12582912 (- 23)) (Finite False 12582912 (- 23)) 0
     = Inr (Finite True 12582912 (- 23))"
  "interpolate binary32 20000 (Finite True 12582912 (- 23)) (Finite False 12582912 (- 23)) 19999
     = Inr (Finite False 12582912 (- 23))"
  "interpolate binary32 20000 (Finite True 12582912 (- 23)) (Finite False 12582912 (- 23)) 9999
     = Inr (Finite True 10308437 (- 37))"
  "interpolate binary32 20000 (Finite True 12582912 (- 23)) (Finite False 12582912 (- 23)) 10000
     = Inr (Finite False 10308437 (- 37))"
  "interpolate binary32 3 (Finite True 12582912 (- 23)) (Finite False 12582912 (- 23)) 1
     = Inr (Finite False 0 0)"
  by code_simp+

lemma c_binary32:
  "float_of_decimal binary32 (- (8 / 10)) = Finite True 13421773 (- 24)"
  "float_of_decimal binary32 (156 / 1000) = Finite False 10468983 (- 26)"
  by code_simp+

lemma cr_binary32: "cr binary32 = Finite True 13421773 (- 24)"
  unfolding cr_def by (rule c_binary32)

lemma coord_binary32:
  "coord binary32 20000 (Finite True 12582912 (- 23)) (Finite False 12582912 (- 23)) 0
      = Finite True 12582912 (- 23)"
  "coord binary32 20000 (Finite True 12582912 (- 23)) (Finite False 12582912 (- 23)) 19999
      = Finite False 12582912 (- 23)"
  "coord binary32 20000 (Finite True 12582912 (- 23)) (Finite False 12582912 (- 23)) 9999
      = Finite True 10308437 (- 37)"
  "coord binary32 20000 (Finite True 12582912 (- 23)) (Finite False 12582912 (- 23)) 10000
      = Finite False 10308437 (- 37)"
  "coord binary32 3 (Finite True 12582912 (- 23)) (Finite False 12582912 (- 23)) 1
      = Finite False 0 0"
  "coord binary32 3 (Finite True 12582912 (- 23)) (Finite False 12582912 (- 23)) 2
      = Finite False 12582912 (- 23)"
  by code_simp+

lemma in_set_orbit:
  assumes "c_int w" "c_int h" "1 < w" "1 < h" "0 \<le> i" "i < w" "0 \<le> j" "j < h"
    and "julia_point F w h xl xr yb yt i j = Inr 1"
  shows "julia_point_steps F w h xl xr yb yt i j = Inr (1, 200)
     \<and> (\<forall>m. 1 \<le> m \<and> m \<le> 200 \<longrightarrow>
          \<not> exceeds F (iterate F (float_of_decimal F (- (8 / 10)), float_of_decimal F (156 / 1000))
                          (coord F w xl xr i, coord F h yb yt j) m))"
  using julia_point_orbit [OF assms(1-8), of F xl xr yb yt] assms(9) by auto

lemma escaped_orbit:
  assumes "c_int w" "c_int h" "1 < w" "1 < h" "0 \<le> i" "i < w" "0 \<le> j" "j < h"
    and "julia_point_steps F w h xl xr yb yt i j = Inr (0, n)"
  shows "julia_point F w h xl xr yb yt i j = Inr 0
     \<and> exceeds F (iterate F (float_of_decimal F (- (8 / 10)), float_of_decimal F (156 / 1000))
                     (coord F w xl xr i, coord F h yb yt j) n)
     \<and> (\<forall>m. 1 \<le> m \<and> m < n \<longrightarrow>
          \<not> exceeds F (iterate F (float_of_decimal F (- (8 / 10)), float_of_decimal F (156 / 1000))
                          (coord F w xl xr i, coord F h yb yt j) m))"
  using julia_point_orbit [OF assms(1-8), of F xl xr yb yt] assms(9) by auto

lemma centre_20000:
  "julia_point_steps binary32 20000 20000
      (Finite True 12582912 (- 23)) (Finite False 12582912 (- 23))
      (Finite True 12582912 (- 23)) (Finite False 12582912 (- 23)) 9999 9999 = Inr (1, 200)"
  by code_simp

lemma centre_20000':
  "julia_point_steps binary32 20000 20000
      (Finite True 12582912 (- 23)) (Finite False 12582912 (- 23))
      (Finite True 12582912 (- 23)) (Finite False 12582912 (- 23)) 9999 10000 = Inr (1, 200)"
  by code_simp

lemma centre_3:
  "julia_point_steps binary32 3 3
      (Finite True 12582912 (- 23)) (Finite False 12582912 (- 23))
      (Finite True 12582912 (- 23)) (Finite False 12582912 (- 23)) 1 1 = Inr (1, 200)"
  by code_simp

lemma corner_20000:
  "julia_point_steps binary32 20000 20000
      (Finite True 12582912 (- 23)) (Finite False 12582912 (- 23))
      (Finite True 12582912 (- 23)) (Finite False 12582912 (- 23)) 19999 19999 = Inr (0, 3)"
  by code_simp

lemma corner_3:
  "julia_point_steps binary32 3 3
      (Finite True 12582912 (- 23)) (Finite False 12582912 (- 23))
      (Finite True 12582912 (- 23)) (Finite False 12582912 (- 23)) 2 2 = Inr (0, 3)"
  by code_simp

lemma centre_points:
  "julia_point binary32 20000 20000
      (Finite True 12582912 (- 23)) (Finite False 12582912 (- 23))
      (Finite True 12582912 (- 23)) (Finite False 12582912 (- 23)) 9999 9999 = Inr 1"
  "julia_point binary32 20000 20000
      (Finite True 12582912 (- 23)) (Finite False 12582912 (- 23))
      (Finite True 12582912 (- 23)) (Finite False 12582912 (- 23)) 9999 10000 = Inr 1"
  "julia_point binary32 20000 20000
      (Finite True 12582912 (- 23)) (Finite False 12582912 (- 23))
      (Finite True 12582912 (- 23)) (Finite False 12582912 (- 23)) 10000 9999 = Inr 1"
  "julia_point binary32 20000 20000
      (Finite True 12582912 (- 23)) (Finite False 12582912 (- 23))
      (Finite True 12582912 (- 23)) (Finite False 12582912 (- 23)) 10000 10000 = Inr 1"
  "julia_point binary32 3 3
      (Finite True 12582912 (- 23)) (Finite False 12582912 (- 23))
      (Finite True 12582912 (- 23)) (Finite False 12582912 (- 23)) 1 1 = Inr 1"
proof -
  have z: "\<forall>s e. ci (ieee_arith (round_binary binary32_format) fp_of_decimal) \<noteq> Finite s 0 e"
    using ci_binary32 by (simp add: binary32_def)
  show a: "julia_point binary32 20000 20000
      (Finite True 12582912 (- 23)) (Finite False 12582912 (- 23))
      (Finite True 12582912 (- 23)) (Finite False 12582912 (- 23)) 9999 9999 = Inr 1"
    by (simp add: julia_point_def centre_20000)
  show b: "julia_point binary32 20000 20000
      (Finite True 12582912 (- 23)) (Finite False 12582912 (- 23))
      (Finite True 12582912 (- 23)) (Finite False 12582912 (- 23)) 9999 10000 = Inr 1"
    by (simp add: julia_point_def centre_20000')
  from rotation [of 20000 20000 9999 9999 "round_binary binary32_format" fp_of_decimal
      "Finite True 12582912 (- 23)" "Finite True 12582912 (- 23)", OF _ _ _ _ _ _ _ _ z]
  show "julia_point binary32 20000 20000
      (Finite True 12582912 (- 23)) (Finite False 12582912 (- 23))
      (Finite True 12582912 (- 23)) (Finite False 12582912 (- 23)) 10000 10000 = Inr 1"
    using c_int_grid a by (simp add: binary32_def [symmetric])
  from rotation [of 20000 20000 9999 10000 "round_binary binary32_format" fp_of_decimal
      "Finite True 12582912 (- 23)" "Finite True 12582912 (- 23)", OF _ _ _ _ _ _ _ _ z]
  show "julia_point binary32 20000 20000
      (Finite True 12582912 (- 23)) (Finite False 12582912 (- 23))
      (Finite True 12582912 (- 23)) (Finite False 12582912 (- 23)) 10000 9999 = Inr 1"
    using c_int_grid b by (simp add: binary32_def [symmetric])
  show "julia_point binary32 3 3
      (Finite True 12582912 (- 23)) (Finite False 12582912 (- 23))
      (Finite True 12582912 (- 23)) (Finite False 12582912 (- 23)) 1 1 = Inr 1"
    by (simp add: julia_point_def centre_3)
qed

lemma centre_closest:
  "\<bar>coord real_arith 20000 (- (3 / 2)) (3 / 2) 9999\<bar>
     \<le> \<bar>coord real_arith 20000 (- (3 / 2)) (3 / 2) i\<bar>"
  "\<bar>coord real_arith 20000 (- (3 / 2)) (3 / 2) 10000\<bar>
     \<le> \<bar>coord real_arith 20000 (- (3 / 2)) (3 / 2) i\<bar>"
proof -
  have a: "coord real_arith 20000 (- (3 / 2)) (3 / 2) k = 3 * of_int (2 * k - 19999) / 39998"
    for k
    by (simp add: coord_def real_arith_def field_simps)
  have "1 \<le> \<bar>2 * i - 19999\<bar>" by presburger
  then have "(1::real) \<le> of_int \<bar>2 * i - 19999\<bar>" by linarith
  then have b: "(1::real) \<le> \<bar>of_int (2 * i - 19999)\<bar>" by simp
  have c: "\<bar>3 * x / (39998::real)\<bar> = 3 * \<bar>x\<bar> / 39998" for x
    by (simp add: abs_mult)
  show "\<bar>coord real_arith 20000 (- (3 / 2)) (3 / 2) 9999\<bar>
     \<le> \<bar>coord real_arith 20000 (- (3 / 2)) (3 / 2) i\<bar>"
    unfolding a c using b by simp
  show "\<bar>coord real_arith 20000 (- (3 / 2)) (3 / 2) 10000\<bar>
     \<le> \<bar>coord real_arith 20000 (- (3 / 2)) (3 / 2) i\<bar>"
    unfolding a c using b by simp
qed

lemma centre_orbit:
  assumes "i = 9999 \<or> i = 10000" "j = 9999 \<or> j = 10000"
  shows "julia_point_steps binary32 20000 20000
      (Finite True 12582912 (- 23)) (Finite False 12582912 (- 23))
      (Finite True 12582912 (- 23)) (Finite False 12582912 (- 23)) i j = Inr (1, 200)
     \<and> julia_point binary32 20000 20000
         (Finite True 12582912 (- 23)) (Finite False 12582912 (- 23))
         (Finite True 12582912 (- 23)) (Finite False 12582912 (- 23)) i j = Inr 1
     \<and> (\<forall>m. 1 \<le> m \<and> m \<le> 200 \<longrightarrow>
          \<not> exceeds binary32 (iterate binary32 (Finite True 13421773 (- 24), Finite False 10468983 (- 26))
               (coord binary32 20000 (Finite True 12582912 (- 23)) (Finite False 12582912 (- 23)) i,
                  coord binary32 20000 (Finite True 12582912 (- 23)) (Finite False 12582912 (- 23)) j) m))"
proof -
  have p: "julia_point binary32 20000 20000
      (Finite True 12582912 (- 23)) (Finite False 12582912 (- 23))
      (Finite True 12582912 (- 23)) (Finite False 12582912 (- 23)) i j = Inr 1"
    using assms centre_points by auto
  have "0 \<le> i" "i < 20000" "0 \<le> j" "j < 20000" using assms by auto
  from in_set_orbit [OF c_int_grid(2) c_int_grid(2) _ _ this p, unfolded c_binary32] p
  show ?thesis by simp
qed

lemma centre_3_orbit:
  "julia_point_steps binary32 3 3
      (Finite True 12582912 (- 23)) (Finite False 12582912 (- 23))
      (Finite True 12582912 (- 23)) (Finite False 12582912 (- 23)) 1 1 = Inr (1, 200)
   \<and> julia_point binary32 3 3
       (Finite True 12582912 (- 23)) (Finite False 12582912 (- 23))
       (Finite True 12582912 (- 23)) (Finite False 12582912 (- 23)) 1 1 = Inr 1
   \<and> (\<forall>m. 1 \<le> m \<and> m \<le> 200 \<longrightarrow>
        \<not> exceeds binary32 (iterate binary32 (Finite True 13421773 (- 24), Finite False 10468983 (- 26))
              (Finite False 0 0, Finite False 0 0) m))"
  using in_set_orbit [OF c_int_grid(1) c_int_grid(1) _ _ _ _ _ _ centre_points(5),
      unfolded c_binary32 coord_binary32] centre_points(5)
  by simp

lemma corner_orbit:
  "julia_point binary32 20000 20000
      (Finite True 12582912 (- 23)) (Finite False 12582912 (- 23))
      (Finite True 12582912 (- 23)) (Finite False 12582912 (- 23)) 19999 19999 = Inr 0
   \<and> \<not> exceeds binary32 (iterate binary32 (Finite True 13421773 (- 24), Finite False 10468983 (- 26))
         (Finite False 12582912 (- 23), Finite False 12582912 (- 23)) 1)
   \<and> \<not> exceeds binary32 (iterate binary32 (Finite True 13421773 (- 24), Finite False 10468983 (- 26))
         (Finite False 12582912 (- 23), Finite False 12582912 (- 23)) 2)
   \<and> exceeds binary32 (iterate binary32 (Finite True 13421773 (- 24), Finite False 10468983 (- 26))
         (Finite False 12582912 (- 23), Finite False 12582912 (- 23)) 3)"
  using escaped_orbit [OF c_int_grid(2) c_int_grid(2) _ _ _ _ _ _ corner_20000,
      unfolded c_binary32 coord_binary32]
  by simp

lemma corner_3_point: "julia_point binary32 3 3
    (Finite True 12582912 (- 23)) (Finite False 12582912 (- 23))
    (Finite True 12582912 (- 23)) (Finite False 12582912 (- 23)) 2 2 = Inr 0"
  by (simp add: julia_point_def corner_3)

lemma first_iterates:
  "iterate binary32 (Finite True 13421773 (- 24), Finite False 10468983 (- 26))
        (Finite False 0 0, Finite False 0 0) 1
          = (Finite True 13421773 (- 24), Finite False 10468983 (- 26))"
  "iterate binary32 (Finite True 13421773 (- 24), Finite False 10468983 (- 26))
        (Finite False 12582912 (- 23), Finite False 12582912 (- 23)) 1
          = (Finite True 13421773 (- 24), Finite False 9764340 (- 21))"
  by code_simp+

text \<open>
  Claim C8, as amended: in binary32 arithmetic, for the grid and the bounds of
  \<^verbatim>\<open>main\<close> (\<open>W = H = 20000\<close>, \<open>-1.5\<close> and \<open>1.5\<close>, which are floats) and the constants
  \<^verbatim>\<open>cr\<close> and \<^verbatim>\<open>ci\<close> of the program (the floats nearest to \<open>-0.8\<close> and \<open>0.156\<close>).
  The columns 9999 and 10000 map to \<open>\<mp> 10308437 \<times> 2\<^sup>-\<^sup>3\<^sup>7\<close> (about \<open>0.000075\<close>), and in
  exact arithmetic no column, and likewise no row, maps closer to 0. Each of the four
  pixels \<open>(i, j)\<close> with \<open>i, j \<in> {9999, 10000}\<close> is classified in the set after 200
  updates, none of whose iterates exceeds the threshold. The corner pixel
  \<open>(19999, 19999)\<close> maps to \<open>(1.5, 1.5)\<close> and is classified escaped at the third
  update, the first whose iterate exceeds the threshold. The same holds on the 3 by 3
  grid, whose centre pixel \<open>(1, 1)\<close> maps to the origin itself (its first iterate is
  \<open>c\<close>) and whose corner pixel is \<open>(2, 2)\<close>.
\<close>

theorem centre_in_set_corner_escapes:
  "float_of_decimal binary32 (- (3 / 2)) = Finite True 12582912 (- 23)
   \<and> float_of_decimal binary32 (3 / 2) = Finite False 12582912 (- 23)
   \<and> cr binary32 = Finite True 13421773 (- 24)
   \<and> ci binary32 = Finite False 10468983 (- 26)
   \<and> coord binary32 20000 (Finite True 12582912 (- 23)) (Finite False 12582912 (- 23)) 9999
       = Finite True 10308437 (- 37)
   \<and> coord binary32 20000 (Finite True 12582912 (- 23)) (Finite False 12582912 (- 23)) 10000
       = Finite False 10308437 (- 37)
   \<and> (\<forall>i. \<bar>coord real_arith 20000 (- (3 / 2)) (3 / 2) 9999\<bar>
            \<le> \<bar>coord real_arith 20000 (- (3 / 2)) (3 / 2) i\<bar>)
   \<and> (\<forall>i. \<bar>coord real_arith 20000 (- (3 / 2)) (3 / 2) 10000\<bar>
            \<le> \<bar>coord real_arith 20000 (- (3 / 2)) (3 / 2) i\<bar>)
   \<and> (\<forall>i j. (i = 9999 \<or> i = 10000) \<and> (j = 9999 \<or> j = 10000) \<longrightarrow>
         julia_point_steps binary32 20000 20000
             (Finite True 12582912 (- 23)) (Finite False 12582912 (- 23))
             (Finite True 12582912 (- 23)) (Finite False 12582912 (- 23)) i j = Inr (1, 200)
       \<and> julia_point binary32 20000 20000
           (Finite True 12582912 (- 23)) (Finite False 12582912 (- 23))
           (Finite True 12582912 (- 23)) (Finite False 12582912 (- 23)) i j = Inr 1
       \<and> (\<forall>m. 1 \<le> m \<and> m \<le> 200 \<longrightarrow>
            \<not> exceeds binary32 (iterate binary32 (Finite True 13421773 (- 24), Finite False 10468983 (- 26))
                 (coord binary32 20000 (Finite True 12582912 (- 23)) (Finite False 12582912 (- 23)) i,
                  coord binary32 20000 (Finite True 12582912 (- 23)) (Finite False 12582912 (- 23)) j) m)))
   \<and> coord binary32 20000 (Finite True 12582912 (- 23)) (Finite False 12582912 (- 23)) 19999
       = Finite False 12582912 (- 23)
   \<and> julia_point_steps binary32 20000 20000
       (Finite True 12582912 (- 23)) (Finite False 12582912 (- 23))
       (Finite True 12582912 (- 23)) (Finite False 12582912 (- 23)) 19999 19999 = Inr (0, 3)
   \<and> julia_point binary32 20000 20000
       (Finite True 12582912 (- 23)) (Finite False 12582912 (- 23))
       (Finite True 12582912 (- 23)) (Finite False 12582912 (- 23)) 19999 19999 = Inr 0
   \<and> iterate binary32 (Finite True 13421773 (- 24), Finite False 10468983 (- 26))
         (Finite False 12582912 (- 23), Finite False 12582912 (- 23)) 1
           = (Finite True 13421773 (- 24), Finite False 9764340 (- 21))
   \<and> \<not> exceeds binary32 (iterate binary32 (Finite True 13421773 (- 24), Finite False 10468983 (- 26))
         (Finite False 12582912 (- 23), Finite False 12582912 (- 23)) 1)
   \<and> \<not> exceeds binary32 (iterate binary32 (Finite True 13421773 (- 24), Finite False 10468983 (- 26))
         (Finite False 12582912 (- 23), Finite False 12582912 (- 23)) 2)
   \<and> exceeds binary32 (iterate binary32 (Finite True 13421773 (- 24), Finite False 10468983 (- 26))
         (Finite False 12582912 (- 23), Finite False 12582912 (- 23)) 3)
   \<and> coord binary32 3 (Finite True 12582912 (- 23)) (Finite False 12582912 (- 23)) 1
       = Finite False 0 0
   \<and> coord binary32 3 (Finite True 12582912 (- 23)) (Finite False 12582912 (- 23)) 2
       = Finite False 12582912 (- 23)
   \<and> julia_point_steps binary32 3 3
       (Finite True 12582912 (- 23)) (Finite False 12582912 (- 23))
       (Finite True 12582912 (- 23)) (Finite False 12582912 (- 23)) 1 1 = Inr (1, 200)
   \<and> julia_point binary32 3 3
       (Finite True 12582912 (- 23)) (Finite False 12582912 (- 23))
       (Finite True 12582912 (- 23)) (Finite False 12582912 (- 23)) 1 1 = Inr 1
   \<and> iterate binary32 (Finite True 13421773 (- 24), Finite False 10468983 (- 26))
         (Finite False 0 0, Finite False 0 0) 1
           = (Finite True 13421773 (- 24), Finite False 10468983 (- 26))
   \<and> (\<forall>m. 1 \<le> m \<and> m \<le> 200 \<longrightarrow>
        \<not> exceeds binary32 (iterate binary32 (Finite True 13421773 (- 24), Finite False 10468983 (- 26))
              (Finite False 0 0, Finite False 0 0) m))
   \<and> julia_point_steps binary32 3 3
       (Finite True 12582912 (- 23)) (Finite False 12582912 (- 23))
       (Finite True 12582912 (- 23)) (Finite False 12582912 (- 23)) 2 2 = Inr (0, 3)
   \<and> julia_point binary32 3 3
       (Finite True 12582912 (- 23)) (Finite False 12582912 (- 23))
       (Finite True 12582912 (- 23)) (Finite False 12582912 (- 23)) 2 2 = Inr 0"
  using centre_orbit centre_3_orbit corner_orbit
  by (simp only: bounds_binary32 cr_binary32 ci_binary32 coord_binary32 centre_closest
      corner_20000 corner_3 corner_3_point first_iterates simp_thms) blast

text \<open>
  The pixel \<open>(10000, 9999)\<close> of the grid of \<^verbatim>\<open>main\<close>, and the first and the last of
  its 200 iterates; the last iterate from the origin.
\<close>

theorem centre_in_set_corner_escapes_witness:
  "julia_point binary32 20000 20000
      (Finite True 12582912 (- 23)) (Finite False 12582912 (- 23))
      (Finite True 12582912 (- 23)) (Finite False 12582912 (- 23)) 10000 9999 = Inr 1
   \<and> \<not> exceeds binary32 (iterate binary32 (Finite True 13421773 (- 24), Finite False 10468983 (- 26))
         (Finite False 10308437 (- 37), Finite True 10308437 (- 37)) 1)
   \<and> \<not> exceeds binary32 (iterate binary32 (Finite True 13421773 (- 24), Finite False 10468983 (- 26))
         (Finite False 10308437 (- 37), Finite True 10308437 (- 37)) 200)
   \<and> \<not> exceeds binary32 (iterate binary32 (Finite True 13421773 (- 24), Finite False 10468983 (- 26))
         (Finite False 0 0, Finite False 0 0) 200)"
proof -
  from centre_in_set_corner_escapes
  have c: "coord binary32 20000 (Finite True 12582912 (- 23)) (Finite False 12582912 (- 23)) 9999 = Finite True 10308437 (- 37)"
    "coord binary32 20000 (Finite True 12582912 (- 23)) (Finite False 12582912 (- 23)) 10000 = Finite False 10308437 (- 37)"
    and a: "\<forall>i j. (i = 9999 \<or> i = 10000) \<and> (j = 9999 \<or> j = 10000) \<longrightarrow>
         julia_point_steps binary32 20000 20000
             (Finite True 12582912 (- 23)) (Finite False 12582912 (- 23))
             (Finite True 12582912 (- 23)) (Finite False 12582912 (- 23)) i j = Inr (1, 200)
       \<and> julia_point binary32 20000 20000
           (Finite True 12582912 (- 23)) (Finite False 12582912 (- 23))
           (Finite True 12582912 (- 23)) (Finite False 12582912 (- 23)) i j = Inr 1
       \<and> (\<forall>m. 1 \<le> m \<and> m \<le> 200 \<longrightarrow>
            \<not> exceeds binary32 (iterate binary32 (Finite True 13421773 (- 24), Finite False 10468983 (- 26))
                 (coord binary32 20000 (Finite True 12582912 (- 23)) (Finite False 12582912 (- 23)) i,
                  coord binary32 20000 (Finite True 12582912 (- 23)) (Finite False 12582912 (- 23)) j) m))"
    and b: "\<forall>m. 1 \<le> m \<and> m \<le> 200 \<longrightarrow>
        \<not> exceeds binary32 (iterate binary32 (Finite True 13421773 (- 24), Finite False 10468983 (- 26))
              (Finite False 0 0, Finite False 0 0) m)"
    by blast+
  from a [rule_format, of 10000 9999]
  have p: "julia_point binary32 20000 20000
      (Finite True 12582912 (- 23)) (Finite False 12582912 (- 23))
      (Finite True 12582912 (- 23)) (Finite False 12582912 (- 23)) 10000 9999 = Inr 1"
    and o: "\<forall>m. 1 \<le> m \<and> m \<le> 200 \<longrightarrow>
            \<not> exceeds binary32 (iterate binary32 (Finite True 13421773 (- 24), Finite False 10468983 (- 26))
                  (Finite False 10308437 (- 37), Finite True 10308437 (- 37)) m)"
    unfolding c by simp_all
  from o [rule_format, of 1] o [rule_format, of 200] b [rule_format, of 200] p
  show ?thesis by simp
qed

text \<open>
  The claim names no grid, and it does not hold on every grid. On the 4 by 4 grid over
  the same bounds the columns and the rows map to \<open>-1.5\<close>, \<open>-0.5\<close>, \<open>0.5\<close> and \<open>1.5\<close>;
  the four pixels nearest to the origin are those with \<open>i, j \<in> {1, 2}\<close>, at
  \<open>(\<plusminus> 0.5, \<plusminus> 0.5)\<close>, and each of them is classified escaped, after 6 or 9 updates.
\<close>

theorem centre_escapes_4x4:
  "coord binary32 4 (Finite True 12582912 (- 23)) (Finite False 12582912 (- 23)) 0
      = Finite True 12582912 (- 23)
   \<and> coord binary32 4 (Finite True 12582912 (- 23)) (Finite False 12582912 (- 23)) 1
       = Finite True 8388608 (- 24)
   \<and> coord binary32 4 (Finite True 12582912 (- 23)) (Finite False 12582912 (- 23)) 2
       = Finite False 8388608 (- 24)
   \<and> coord binary32 4 (Finite True 12582912 (- 23)) (Finite False 12582912 (- 23)) 3
       = Finite False 12582912 (- 23)
   \<and> julia_point_steps binary32 4 4
       (Finite True 12582912 (- 23)) (Finite False 12582912 (- 23))
       (Finite True 12582912 (- 23)) (Finite False 12582912 (- 23)) 1 1 = Inr (0, 6)
   \<and> julia_point_steps binary32 4 4
       (Finite True 12582912 (- 23)) (Finite False 12582912 (- 23))
       (Finite True 12582912 (- 23)) (Finite False 12582912 (- 23)) 1 2 = Inr (0, 9)
   \<and> julia_point_steps binary32 4 4
       (Finite True 12582912 (- 23)) (Finite False 12582912 (- 23))
       (Finite True 12582912 (- 23)) (Finite False 12582912 (- 23)) 2 1 = Inr (0, 9)
   \<and> julia_point_steps binary32 4 4
       (Finite True 12582912 (- 23)) (Finite False 12582912 (- 23))
       (Finite True 12582912 (- 23)) (Finite False 12582912 (- 23)) 2 2 = Inr (0, 6)
   \<and> julia_point binary32 4 4
       (Finite True 12582912 (- 23)) (Finite False 12582912 (- 23))
       (Finite True 12582912 (- 23)) (Finite False 12582912 (- 23)) 1 1 = Inr 0
   \<and> julia_point binary32 4 4
       (Finite True 12582912 (- 23)) (Finite False 12582912 (- 23))
       (Finite True 12582912 (- 23)) (Finite False 12582912 (- 23)) 1 2 = Inr 0
   \<and> julia_point binary32 4 4
       (Finite True 12582912 (- 23)) (Finite False 12582912 (- 23))
       (Finite True 12582912 (- 23)) (Finite False 12582912 (- 23)) 2 1 = Inr 0
   \<and> julia_point binary32 4 4
       (Finite True 12582912 (- 23)) (Finite False 12582912 (- 23))
       (Finite True 12582912 (- 23)) (Finite False 12582912 (- 23)) 2 2 = Inr 0"
  by code_simp


lemma interpolate_real_corners:
  assumes "c_int w" "1 < w"
  shows "interpolate real_arith w xl xr 0 = Inr xl"
    and "interpolate real_arith w xl xr (w - 1) = Inr xr"
proof -
  have "interpolate real_arith w xl xr 0 = Inr (coord real_arith w xl xr 0)"
    using assms by (intro interpolate_valid) auto
  then show "interpolate real_arith w xl xr 0 = Inr xl"
    using assms by (simp add: coord_def real_arith_def)
  have "interpolate real_arith w xl xr (w - 1) = Inr (coord real_arith w xl xr (w - 1))"
    using assms by (intro interpolate_valid) auto
  then show "interpolate real_arith w xl xr (w - 1) = Inr xr"
    using assms by (simp add: coord_def real_arith_def)
qed

text \<open>
  Claim C4, as amended. In exact arithmetic the interpolation sends index 0 to the
  lower bound and index \<open>W - 1\<close> to the upper bound, for every \<open>W > 1\<close> and all
  bounds (the same expression serves \<open>x\<close> and \<open>y\<close>). In binary32 arithmetic it does so
  for the grid and the bounds of \<^verbatim>\<open>main\<close>.
\<close>

theorem corner_mapping:
  "(\<forall>w xl xr. c_int w \<and> 1 < w \<longrightarrow>
       interpolate real_arith w xl xr 0 = Inr xl
     \<and> interpolate real_arith w xl xr (w - 1) = Inr xr)
   \<and> float_of_decimal binary32 (- (3 / 2)) = Finite True 12582912 (- 23)
   \<and> float_of_decimal binary32 (3 / 2) = Finite False 12582912 (- 23)
   \<and> interpolate binary32 20000 (Finite True 12582912 (- 23)) (Finite False 12582912 (- 23)) 0
        = Inr (Finite True 12582912 (- 23))
   \<and> interpolate binary32 20000 (Finite True 12582912 (- 23)) (Finite False 12582912 (- 23)) 19999
        = Inr (Finite False 12582912 (- 23))"
  using interpolate_real_corners
  by (simp only: bounds_binary32 coords_binary32 simp_thms) blast

theorem corner_mapping_witness:
  "c_int 2 \<and> (1::int) < 2
   \<and> interpolate real_arith 2 (- (3 / 2)) (3 / 2) 0 = Inr (- (3 / 2))
   \<and> interpolate real_arith 2 (- (3 / 2)) (3 / 2) 1 = Inr (3 / 2)"
proof -
  from corner_mapping have "c_int 2 \<and> (1::int) < 2 \<longrightarrow>
       interpolate real_arith 2 (- (3 / 2)) (3 / 2) 0 = Inr (- (3 / 2))
     \<and> interpolate real_arith 2 (- (3 / 2)) (3 / 2) (2 - 1) = Inr (3 / 2)"
    by blast
  with c_int_small show ?thesis by simp
qed

text \<open>
  In binary32 arithmetic, for \<open>W = 6\<close> and \<open>xl = 13421775 \<times> 2\<^sup>-\<^sup>2\<^sup>3\<close> (about
  1.6000003), \<open>xr = 2\<close>: the product \<open>5 xl\<close> rounds to \<open>8388609 \<times> 2\<^sup>-\<^sup>2\<^sup>0\<close>, and the
  quotient by 5 rounds to \<open>13421774 \<times> 2\<^sup>-\<^sup>2\<^sup>3\<close>, the float below \<open>xl\<close>.
\<close>

theorem corner_mapping_inexact:
  "interpolate binary32 6 (Finite False 13421775 (- 23)) (Finite False 8388608 (- 22)) 0
     = Inr (Finite False 13421774 (- 23))"
  by code_simp

section \<open>The whole program\<close>

text \<open>
  The size \<open>3 \<times> 20000 \<times> 20000\<close> is an \<^verbatim>\<open>int\<close>: when the allocation succeeds and the
  file opens, \<^verbatim>\<open>main\<close> leaves the two headers followed by the image.
\<close>

lemma main_size: "c_int (20000 * 20000 * 3)" "c_int (3 * 20000 * 20000)"
  by (simp_all add: c_int_def INT_MIN_def INT_MAX_def)

lemma main_file:
  fixes F :: "'f arith"
  assumes "malloc 1200000000 = Some init" "length init = 1200000000"
  shows "main F malloc True =
     Inr (header1 @ header2 20000 20000
          @ image F 20000 20000 (float_of_decimal F (- (3 / 2))) (float_of_decimal F (3 / 2))
              (float_of_decimal F (- (3 / 2))) (float_of_decimal F (3 / 2)))"
proof -
  let ?xl = "float_of_decimal F (- (3 / 2))" and ?xr = "float_of_decimal F (3 / 2)"
  let ?img = "image F 20000 20000 ?xl ?xr ?xl ?xr"
  have r: "julia_rgb F malloc 20000 20000 ?xl ?xr ?xl ?xr = Inr (Some ?img)"
    using assms main_size c_int_grid
    by (intro julia_rgb_image [where init = init]) simp_all
  have l: "length ?img = nat (3 * 20000 * 20000)" by (simp add: image_def)
  have t: "tga_write True 20000 20000 (Some ?img) = Inr (header1 @ header2 20000 20000 @ ?img)"
    using main_size(2) l by (intro tga_write_ok) simp_all
  show ?thesis by (simp add: main_def r t)
qed


end
